theory Spec2Isabelle
  imports Main "HOL-Library.AList" "HOL-Library.Sublist"
begin

section \<open>The syntax tree\<close>

text \<open>
  The analyzer of \<^verbatim>\<open>src/utils/analyzeComponent.ts\<close> (the second, hardened variant in
  the file) works on the tree the Babel parser returns. A node is modelled by one
  constructor per node type the analyzer looks at, with the fields it reads and its
  child nodes; every other node type is \<open>Other t cs\<close>, with its type name \<open>t\<close> and
  its child nodes \<open>cs\<close> in visiting order. Source locations and the \<open>computed\<close>
  flag of a member expression, which the analyzer never reads, are left out.
  The constructors with fields of their own have no field for the children Babel keeps
  in type positions (\<open>typeAnnotation\<close>, \<open>returnType\<close>, \<open>typeParameters\<close>,
  \<open>typeArguments\<close>), which its traversal enters as well. So the trees modelled are
  those of files whose type annotations hold no call, variable declarator, function or
  markup node (a type literal with such an expression as a computed key would hold one);
  on any other file the analyzer visits nodes that have no counterpart here.
  The value of a numeric literal is kept as the text \<open>String(value)\<close> gives.
  Strings are the UTF-8 bytes of the JavaScript strings.
\<close>

datatype node =
    File node
  | Program "node list"
  | ExportDefaultDeclaration node
  | FunctionDeclaration "node option" "node list" node
  | FunctionExpression "node option" "node list" node
  | ArrowFunctionExpression "node list" node
  | VariableDeclaration "node list"
  | VariableDeclarator node "node option"
  | Identifier string
  | StringLiteral string
  | NumericLiteral string
  | BooleanLiteral bool
  | BigIntLiteral string
  | CallExpression node "node list"
  | MemberExpression node node
  | ArrayExpression "node option list"
  | ArrayPattern "node option list"
  | ObjectPattern "node list"
  | ObjectProperty node node
  | RestElement node
  | BlockStatement "node list"
  | ExpressionStatement node
  | JSXElement node "node list" "node option"
  | JSXOpeningElement node "node list"
  | JSXAttribute node "node option"
  | JSXSpreadAttribute node
  | JSXExpressionContainer node
  | JSXText string
  | JSXIdentifier string
  | JSXMemberExpression node node
  | JSXNamespacedName node node
  | TSAsExpression node node
  | TypeCastExpression node node
  | Other string "node list"

text \<open>A field that may be \<open>null\<close> is an option; a traversal skips it when absent.\<close>

definition present :: "'a option \<Rightarrow> 'a list" where
  "present x = (case x of None \<Rightarrow> [] | Some y \<Rightarrow> [y])"

text \<open>
  The child nodes of a node, in the order of Babel's visitor keys, those in type
  positions apart.
\<close>

fun children :: "node \<Rightarrow> node list" where
  "children (File p) = [p]"
| "children (Program body) = body"
| "children (ExportDefaultDeclaration d) = [d]"
| "children (FunctionDeclaration i ps b) = present i @ ps @ [b]"
| "children (FunctionExpression i ps b) = present i @ ps @ [b]"
| "children (ArrowFunctionExpression ps b) = ps @ [b]"
| "children (VariableDeclaration ds) = ds"
| "children (VariableDeclarator i init) = i # present init"
| "children (CallExpression c as) = c # as"
| "children (MemberExpression ob p) = [ob, p]"
| "children (ArrayExpression es) = concat (map present es)"
| "children (ArrayPattern es) = concat (map present es)"
| "children (ObjectPattern ps) = ps"
| "children (ObjectProperty k v) = [k, v]"
| "children (RestElement a) = [a]"
| "children (BlockStatement body) = body"
| "children (ExpressionStatement e) = [e]"
| "children (JSXElement ope cs clo) = ope # cs @ present clo"
| "children (JSXOpeningElement n as) = n # as"
| "children (JSXAttribute n v) = n # present v"
| "children (JSXSpreadAttribute a) = [a]"
| "children (JSXExpressionContainer e) = [e]"
| "children (JSXMemberExpression ob p) = [ob, p]"
| "children (JSXNamespacedName ns n) = [ns, n]"
| "children (TSAsExpression e ty) = [e, ty]"
| "children (TypeCastExpression e ty) = [e, ty]"
| "children (Other k cs) = cs"
| "children _ = []"

section \<open>Traversal\<close>

text \<open>
  A \<open>NodePath\<close> is modelled by the node together with its ancestors, nearest first:
  \<open>path.parentPath\<close> is the head of the ancestor list. \<open>paths anc n\<close> lists the paths
  of \<open>n\<close> and of all nodes below it in the order Babel enters them (a node before its
  children, children in visitor-key order).
\<close>

type_synonym NodePath = "node list \<times> node"

function paths :: "node list \<Rightarrow> node \<Rightarrow> NodePath list" where
  "paths anc n = (anc, n) # concat (map (paths (n # anc)) (children n))"
  by pat_completeness auto
termination
proof (relation "measure (\<lambda>(anc, n). size n)")
  show "wf (measure (\<lambda>(anc, n). size n))" by simp
next
  fix anc :: "node list" and n c :: node
  assume c: "c \<in> set (children n)"
  have list: "size x < Suc (size_list size xs)" if "x \<in> set xs" for x :: node and xs
    using that by (induction xs) auto
  have opt: "size x < Suc (size_option size y)" if "x \<in> set (present y)" for x :: node and y
    using that by (cases y) (auto simp: present_def)
  have optlist: "size x < Suc (size_list (size_option size) ys)"
    if "y \<in> set ys" and "x \<in> set (present y)" for x :: node and y ys
    using that
  proof (induction ys)
    case Nil
    then show ?case by simp
  next
    case (Cons a ys)
    show ?case
    proof (cases "y = a")
      case True
      with Cons.prems(2) have "size x < Suc (size_option size a)" by (simp add: opt)
      then show ?thesis by simp
    next
      case False
      with Cons have "size x < Suc (size_list (size_option size) ys)" by simp
      then show ?thesis by simp
    qed
  qed
  from c have "size c < size n"
    by (cases n) (auto dest: list opt optlist)
  then show "((n # anc, c), (anc, n)) \<in> measure (\<lambda>(anc, n). size n)" by simp
qed

declare paths.simps [simp del]

text \<open>
  \<open>traverse(root, visitor)\<close> enters every node below \<open>root\<close>, not \<open>root\<close> itself, and
  the root is no \<open>parentPath\<close> of any path. The visitors of the analyzer only have
  enter handlers, never skip or stop, and do not change the tree, so a traversal is
  the visitor run over this list from left to right.
\<close>

definition traverse :: "node \<Rightarrow> NodePath list" where
  "traverse root = concat (map (paths []) (children root))"

text \<open>\<open>path.findParent(p)\<close>: the nearest proper ancestor that satisfies \<open>p\<close>.\<close>

definition findParent :: "(node \<Rightarrow> bool) \<Rightarrow> node list \<Rightarrow> node option" where
  "findParent p anc = find p anc"

text \<open>\<open>t.isFunction\<close>: the node types of Babel's alias \<open>Function\<close>.\<close>

fun isFunction :: "node \<Rightarrow> bool" where
  "isFunction (FunctionDeclaration i ps b) = True"
| "isFunction (FunctionExpression i ps b) = True"
| "isFunction (ArrowFunctionExpression ps b) = True"
| "isFunction (Other k cs) = (k \<in> set [''ObjectMethod'', ''ClassMethod'', ''ClassPrivateMethod''])"
| "isFunction _ = False"

fun isVariableDeclarator :: "node \<Rightarrow> bool" where
  "isVariableDeclarator (VariableDeclarator i init) = True"
| "isVariableDeclarator _ = False"

definition getFunctionParent :: "node list \<Rightarrow> node option" where
  "getFunctionParent anc = findParent isFunction anc"

section \<open>Strings\<close>

text \<open>
  \<open>toLowerCase\<close> is modelled on the letters A to Z. Its results are only compared with
  the constants \<open>button\<close>, \<open>input\<close>, \<open>a\<close>, \<open>img\<close>, \<open>text\<close> and the empty string, and no
  character outside ASCII has a lower-case form made of their letters, so the
  comparisons come out as in JavaScript.
\<close>

definition toLowerChar :: "char \<Rightarrow> char" where
  "toLowerChar c =
     (case map_of (zip ''ABCDEFGHIJKLMNOPQRSTUVWXYZ'' ''abcdefghijklmnopqrstuvwxyz'') c of
        Some d \<Rightarrow> d
      | None \<Rightarrow> c)"

definition toLowerCase :: "string \<Rightarrow> string" where
  "toLowerCase s = map toLowerChar s"

definition startsWith :: "string \<Rightarrow> string \<Rightarrow> bool" where
  "startsWith s p = (take (length p) s = p)"

text \<open>
  The white space and line terminators of ECMAScript, which \<open>trim\<close> removes from both
  ends, as UTF-8: TAB, LF, VT, FF, CR, SP, U+00A0, U+1680, U+2000 to U+200A, U+2028,
  U+2029, U+202F, U+205F, U+3000 and U+FEFF.
\<close>

definition whiteSpace :: "string list" where
  "whiteSpace =
     [[CHR 0x09], [CHR 0x0A], [CHR 0x0B], [CHR 0x0C], [CHR 0x0D], [CHR 0x20],
      [CHR 0xC2, CHR 0xA0], [CHR 0xE1, CHR 0x9A, CHR 0x80],
      [CHR 0xE2, CHR 0x80, CHR 0x80], [CHR 0xE2, CHR 0x80, CHR 0x81],
      [CHR 0xE2, CHR 0x80, CHR 0x82], [CHR 0xE2, CHR 0x80, CHR 0x83],
      [CHR 0xE2, CHR 0x80, CHR 0x84], [CHR 0xE2, CHR 0x80, CHR 0x85],
      [CHR 0xE2, CHR 0x80, CHR 0x86], [CHR 0xE2, CHR 0x80, CHR 0x87],
      [CHR 0xE2, CHR 0x80, CHR 0x88], [CHR 0xE2, CHR 0x80, CHR 0x89],
      [CHR 0xE2, CHR 0x80, CHR 0x8A], [CHR 0xE2, CHR 0x80, CHR 0xA8],
      [CHR 0xE2, CHR 0x80, CHR 0xA9], [CHR 0xE2, CHR 0x80, CHR 0xAF],
      [CHR 0xE2, CHR 0x81, CHR 0x9F], [CHR 0xE3, CHR 0x80, CHR 0x80],
      [CHR 0xEF, CHR 0xBB, CHR 0xBF]]"

text \<open>\<open>stripStart ws s\<close> removes from the front of \<open>s\<close> every leading member of \<open>ws\<close>.\<close>

function stripStart :: "string list \<Rightarrow> string \<Rightarrow> string" where
  "stripStart ws s =
     (case find (\<lambda>w. w \<noteq> [] \<and> take (length w) s = w) ws of
        None \<Rightarrow> s
      | Some w \<Rightarrow> stripStart ws (drop (length w) s))"
  by pat_completeness auto
termination
proof (relation "measure (\<lambda>(ws, s). length s)")
  show "wf (measure (\<lambda>(ws, s). length s))" by simp
next
  fix ws :: "string list" and s w :: string
  assume "find (\<lambda>w. w \<noteq> [] \<and> take (length w) s = w) ws = Some w"
  then have w: "w \<noteq> []" "take (length w) s = w"
    by (auto simp: find_Some_iff)
  then have "s \<noteq> []" by auto
  with w(1) have "length (drop (length w) s) < length s" by simp
  then show "((ws, drop (length w) s), (ws, s)) \<in> measure (\<lambda>(ws, s). length s)"
    by simp
qed

declare stripStart.simps [simp del]

definition trim :: "string \<Rightarrow> string" where
  "trim s = rev (stripStart (map rev whiteSpace) (rev (stripStart whiteSpace s)))"

section \<open>The result types\<close>

text \<open>
  A property value is \<open>string | boolean\<close>. A \<open>Record\<close> is an object: its own
  properties, in insertion order, are an association list. The field \<open>text'\<close> is the
  field \<open>text\<close> of \<open>JSXElementInfo\<close> in the source.
\<close>

datatype propValue = PStr string | PBool bool

record JSXElementInfo =
  type :: string
  props :: "(string \<times> propValue) list"
  text' :: "string option"
  testId :: "string option"
  events :: "(string \<times> string) list"
  roleHint :: "string option"

record StateInfo =
  stateVar :: string
  setter :: string

datatype apiType = Axios | Fetch

text \<open>
  An entry of \<open>apis\<close>; the fields \<open>apitype\<close> and \<open>method'\<close> are the fields \<open>type\<close> and
  \<open>method\<close> of the source.
\<close>

record ApiInfo =
  apitype :: apiType
  method' :: "string option"
  url :: string

text \<open>
  The result, which also serves as the accumulator of the second pass: the source keeps
  one local variable per field and builds the object from them at the end. The field
  \<open>props'\<close> is the field \<open>props\<close> of \<open>AnalyzedComponent\<close> in the source.
\<close>

record AnalyzedComponent =
  name :: string
  elements :: "JSXElementInfo list"
  states :: "StateInfo list"
  effects :: bool
  props' :: "string list"
  usesFetch :: bool
  usesAxios :: bool
  apis :: "ApiInfo list"
  effectDeps :: "string list"
  eventToSetterMap :: "(string \<times> string list) list"

text \<open>
  What the analyzer can throw: the two errors it builds itself, with their message, and
  the \<open>TypeError\<close> of the runtime when a value that is no array is asked to \<open>push\<close>.
\<close>

datatype error = Error string | TypeError string

section \<open>Elements\<close>

fun nameOf :: "node \<Rightarrow> string" where
  "nameOf (Identifier x) = x"
| "nameOf (JSXIdentifier x) = x"
| "nameOf _ = ''undefined''"

function getJsxName :: "node \<Rightarrow> string" where
  "getJsxName n =
     (case n of
        JSXIdentifier x \<Rightarrow> x
      | JSXMemberExpression ob p \<Rightarrow> getJsxName ob @ ''.'' @ getJsxName p
      | JSXNamespacedName ns nm \<Rightarrow> nameOf ns @ '':'' @ getJsxName nm
      | _ \<Rightarrow> ''Unknown'')"
  by pat_completeness auto
termination
  by (relation "measure size") auto

declare getJsxName.simps [simp del]

text \<open>The property \<open>props[k]\<close> of the object, \<open>undefined\<close> being \<open>None\<close>.\<close>

definition getProp :: "(string \<times> propValue) list \<Rightarrow> string \<Rightarrow> propValue option" where
  "getProp obj k = map_of obj k"

text \<open>\<open>String(v ?? "")\<close> for a property value.\<close>

fun stringOfProp :: "propValue option \<Rightarrow> string" where
  "stringOfProp None = []"
| "stringOfProp (Some (PStr s)) = s"
| "stringOfProp (Some (PBool True)) = ''true''"
| "stringOfProp (Some (PBool False)) = ''false''"

definition guessRole :: "string \<Rightarrow> (string \<times> propValue) list \<Rightarrow> string option" where
  "guessRole nm obj =
     (let lower = toLowerCase nm in
      if lower = ''button'' \<or> getProp obj ''role'' = Some (PStr ''button'') then Some ''button''
      else if (lower = ''input'' \<or> getProp obj ''role'' = Some (PStr ''textbox''))
              \<and> (let ty = toLowerCase (stringOfProp (getProp obj ''type''))
                 in ty = [] \<or> ty = ''text'')
      then Some ''textbox''
      else if lower = ''a'' \<or> getProp obj ''role'' = Some (PStr ''link'') then Some ''link''
      else if lower = ''img'' \<or> getProp obj ''role'' = Some (PStr ''img'') then Some ''img''
      else None)"

text \<open>
  \<open>t.isLiteral\<close>. Of the literal node types, null, regular expression and template
  literals have no constructor of their own here; they carry no \<open>value\<close>.
\<close>

fun isLiteral :: "node \<Rightarrow> bool" where
  "isLiteral (StringLiteral v) = True"
| "isLiteral (NumericLiteral v) = True"
| "isLiteral (BooleanLiteral v) = True"
| "isLiteral (BigIntLiteral v) = True"
| "isLiteral (Other k cs) = (k \<in> set [''NullLiteral'', ''RegExpLiteral'', ''TemplateLiteral''])"
| "isLiteral _ = False"

fun literalToString :: "node \<Rightarrow> propValue" where
  "literalToString (StringLiteral v) = PStr v"
| "literalToString (NumericLiteral v) = PStr v"
| "literalToString (BooleanLiteral v) = PBool v"
| "literalToString (BigIntLiteral v) = PStr v"
| "literalToString _ = PStr ''dynamic''"

text \<open>
  \<open>propsObj[key] = v\<close>. The object inherits from \<open>Object.prototype\<close>, whose setter
  \<open>__proto__\<close> ignores a value that is neither an object nor \<open>null\<close>, so that
  assignment stores nothing.
\<close>

definition setProp ::
  "string \<Rightarrow> propValue \<Rightarrow> (string \<times> propValue) list \<Rightarrow> (string \<times> propValue) list" where
  "setProp key v propsObj =
     (if key = ''__proto__'' then propsObj else AList.update key v propsObj)"

text \<open>The properties and the events an attribute bound to an expression gives.\<close>

definition exprAttr ::
  "string \<Rightarrow> node \<Rightarrow> (string \<times> propValue) list \<times> (string \<times> string) list
     \<Rightarrow> (string \<times> propValue) list \<times> (string \<times> string) list" where
  "exprAttr key expr pe =
     (let bindIdent = (\<lambda>x. (setProp key (PStr (''expr:'' @ x)) (fst pe),
                            if startsWith key ''on'' then AList.update key x (snd pe) else snd pe))
      in case expr of
           Identifier x \<Rightarrow> bindIdent x
         | TSAsExpression inner ty \<Rightarrow>
             (case inner of
                Identifier x \<Rightarrow> bindIdent x
              | _ \<Rightarrow> (setProp key (literalToString inner) (fst pe), snd pe))
         | TypeCastExpression inner ty \<Rightarrow>
             (case inner of
                Identifier x \<Rightarrow> bindIdent x
              | _ \<Rightarrow> (setProp key (literalToString inner) (fst pe), snd pe))
         | _ \<Rightarrow>
             if isLiteral expr then (setProp key (literalToString expr) (fst pe), snd pe)
             else (setProp key (PStr ''dynamic'') (fst pe), snd pe))"

text \<open>One round of the loop of \<open>getJsxProps\<close>, on \<open>(propsObj, testId, events)\<close>.\<close>

fun jsxAttr ::
  "(string \<times> propValue) list \<times> string option \<times> (string \<times> string) list \<Rightarrow> node
     \<Rightarrow> (string \<times> propValue) list \<times> string option \<times> (string \<times> string) list" where
  "jsxAttr (propsObj, tid, evs) attr =
     (case attr of
        JSXAttribute an val \<Rightarrow>
          (case an of
             JSXIdentifier key \<Rightarrow>
               (let pe =
                  (case val of
                     None \<Rightarrow> (setProp key (PBool True) propsObj, evs)
                   | Some v \<Rightarrow>
                       (case v of
                          StringLiteral x \<Rightarrow> (setProp key (PStr x) propsObj, evs)
                        | JSXExpressionContainer expr \<Rightarrow> exprAttr key expr (propsObj, evs)
                        | _ \<Rightarrow> (setProp key (PStr ''unknown'') propsObj, evs)))
                in (fst pe,
                    (case val of
                       Some (StringLiteral x) \<Rightarrow> if key = ''data-testid'' then Some x else tid
                     | _ \<Rightarrow> tid),
                    snd pe))
           | _ \<Rightarrow> (propsObj, tid, evs))
      | _ \<Rightarrow> (propsObj, tid, evs))"

definition getJsxProps ::
  "node list \<Rightarrow> (string \<times> propValue) list \<times> string option \<times> (string \<times> string) list" where
  "getJsxProps attrs = foldl jsxAttr ([], None, []) attrs"

fun isJSXText :: "node \<Rightarrow> bool" where
  "isJSXText (JSXText v) = True"
| "isJSXText _ = False"

text \<open>The record the \<open>JSXElement\<close> visitor pushes for an element node.\<close>

definition elementInfo :: "node \<Rightarrow> JSXElementInfo" where
  "elementInfo nd =
     (case nd of
        JSXElement opening cs clo \<Rightarrow>
          (case opening of
             JSXOpeningElement nm attrs \<Rightarrow>
               (case getJsxProps attrs of (jsxProps, tid, evs) \<Rightarrow>
                  \<lparr>type = getJsxName nm, props = jsxProps,
                   text' = (case find isJSXText cs of
                             Some (JSXText v) \<Rightarrow> Some (trim v)
                           | _ \<Rightarrow> None),
                   testId = tid, events = evs,
                   roleHint = guessRole (getJsxName nm) jsxProps\<rparr>)
           | _ \<Rightarrow> \<lparr>type = ''Unknown'', props = [], text' = None, testId = None, events = [],
                   roleHint = None\<rparr>)
      | _ \<Rightarrow> \<lparr>type = ''Unknown'', props = [], text' = None, testId = None, events = [],
              roleHint = None\<rparr>)"

section \<open>Pass 1: the component locator\<close>

text \<open>
  \<open>unwrapDefaultExport\<close> on the declaration of an \<open>ExportDefaultDeclaration\<close>; the
  result \<open>{}\<close> is \<open>None\<close>. A name is truthy when it is not empty.
\<close>

definition unwrapDefaultExport :: "node \<Rightarrow> string option" where
  "unwrapDefaultExport decl =
     (case decl of
        FunctionDeclaration i ps b \<Rightarrow>
          (case i of Some (Identifier x) \<Rightarrow> if x \<noteq> [] then Some x else None | _ \<Rightarrow> None)
      | Identifier x \<Rightarrow> Some x
      | CallExpression callee args \<Rightarrow>
          (case args of
             firstArg # rest \<Rightarrow> (case firstArg of Identifier x \<Rightarrow> Some x | _ \<Rightarrow> None)
           | [] \<Rightarrow> None)
      | _ \<Rightarrow> None)"

text \<open>The visitor of pass 1, on the variable \<open>componentName\<close>.\<close>

definition locate :: "string \<Rightarrow> NodePath \<Rightarrow> string" where
  "locate componentName p =
     (case snd p of
        ExportDefaultDeclaration decl \<Rightarrow>
          (case unwrapDefaultExport decl of
             Some x \<Rightarrow> if x \<noteq> [] then x else componentName
           | None \<Rightarrow> componentName)
      | _ \<Rightarrow> componentName)"

definition pass1 :: "node \<Rightarrow> string" where
  "pass1 ast = foldl locate ''Anonymous'' (traverse ast)"

section \<open>Pass 2: the scoped extractor\<close>

definition isInsideComponent :: "node list \<Rightarrow> string \<Rightarrow> bool" where
  "isInsideComponent anc componentName =
     ((case getFunctionParent anc of
         Some (FunctionDeclaration (Some (Identifier x)) ps b) \<Rightarrow> x = componentName
       | _ \<Rightarrow> False)
      \<or> (case findParent isVariableDeclarator anc of
            Some (VariableDeclarator (Identifier x) init) \<Rightarrow> x = componentName
          | _ \<Rightarrow> False))"

fun propNames :: "node \<Rightarrow> string list" where
  "propNames (ObjectProperty (Identifier k) v) = [k]"
| "propNames (RestElement (Identifier a)) = [a]"
| "propNames _ = []"

text \<open>\<open>collectPropsFromParams\<close>, on the parameter list of the function.\<close>

definition collectPropsFromParams :: "node list \<Rightarrow> AnalyzedComponent \<Rightarrow> AnalyzedComponent" where
  "collectPropsFromParams params s =
     (case params of
        [] \<Rightarrow> s
      | param # rest \<Rightarrow>
          (case param of
             ObjectPattern properties \<Rightarrow> s\<lparr>props' := props' s @ concat (map propNames properties)\<rparr>
           | Identifier x \<Rightarrow> s\<lparr>props' := props' s @ [x]\<rparr>
           | _ \<Rightarrow> s))"

definition visitFunctionDeclaration ::
  "string \<Rightarrow> AnalyzedComponent \<Rightarrow> node option \<Rightarrow> node list \<Rightarrow> AnalyzedComponent" where
  "visitFunctionDeclaration componentName s i params =
     (case i of
        Some (Identifier x) \<Rightarrow> if x = componentName then collectPropsFromParams params s else s
      | _ \<Rightarrow> s)"

text \<open>The callee is \<open>f\<close> or \<open>React.f\<close>.\<close>

definition isHook :: "string \<Rightarrow> node \<Rightarrow> bool" where
  "isHook f callee =
     (callee = Identifier f \<or> callee = MemberExpression (Identifier ''React'') (Identifier f))"

text \<open>
  The state pair of a declarator \<open>id = init\<close>: \<open>[stateVar, stateSetter]\<close> are the first
  two elements of the array pattern, \<open>undefined\<close> when the pattern is shorter.
\<close>

definition statePair :: "node \<Rightarrow> node option \<Rightarrow> StateInfo list" where
  "statePair i init =
     (case i of
        ArrayPattern els \<Rightarrow>
          (case init of
             Some (CallExpression callee args) \<Rightarrow>
               if isHook ''useState'' callee then
                 (case els of
                    Some (Identifier v) # Some (Identifier w) # rest \<Rightarrow>
                      [\<lparr>stateVar = v, setter = w\<rparr>]
                  | _ \<Rightarrow> [])
               else []
           | _ \<Rightarrow> [])
      | _ \<Rightarrow> [])"

definition visitVariableDeclarator ::
  "string \<Rightarrow> AnalyzedComponent \<Rightarrow> node list \<Rightarrow> node \<Rightarrow> node option \<Rightarrow> AnalyzedComponent" where
  "visitVariableDeclarator componentName s anc i init =
     (let s1 =
        (case i of
           Identifier x \<Rightarrow>
             if x = componentName then
               (case init of
                  Some (ArrowFunctionExpression params b) \<Rightarrow> collectPropsFromParams params s
                | Some (FunctionExpression fi params b) \<Rightarrow> collectPropsFromParams params s
                | _ \<Rightarrow> s)
             else s
         | _ \<Rightarrow> s)
      in if \<not> isInsideComponent anc componentName then s1
         else s1\<lparr>states := states s1 @ statePair i init\<rparr>)"

definition visitJSXElement ::
  "string \<Rightarrow> AnalyzedComponent \<Rightarrow> node list \<Rightarrow> node \<Rightarrow> AnalyzedComponent" where
  "visitJSXElement componentName s anc nd =
     (if \<not> isInsideComponent anc componentName then s
      else s\<lparr>elements := elements s @ [elementInfo nd]\<rparr>)"

text \<open>The dependencies a registration records: the identifiers of a literal array.\<close>

definition depNames :: "node list \<Rightarrow> string list" where
  "depNames args =
     (case args of
        a0 # ArrayExpression els # rest \<Rightarrow>
          concat (map (\<lambda>el. case el of Some (Identifier x) \<Rightarrow> [x] | _ \<Rightarrow> []) els)
      | _ \<Rightarrow> [])"

text \<open>The statements of the effect callback that are walked again, if there is one.\<close>

definition effectStatements :: "node list \<Rightarrow> node list option" where
  "effectStatements args =
     (case args of
        [] \<Rightarrow> None
      | effectFunc # rest \<Rightarrow>
          (case effectFunc of
             ArrowFunctionExpression params b \<Rightarrow>
               Some (case b of BlockStatement body \<Rightarrow> body | _ \<Rightarrow> [ExpressionStatement b])
           | FunctionExpression fi params b \<Rightarrow>
               Some (case b of BlockStatement body \<Rightarrow> body | _ \<Rightarrow> [ExpressionStatement b])
           | _ \<Rightarrow> None))"

definition urlOf :: "node list \<Rightarrow> string" where
  "urlOf args = (case args of StringLiteral v # rest \<Rightarrow> v | _ \<Rightarrow> ''unknown'')"

text \<open>The visitor of the inner traversal, on a node of the effect body.\<close>

definition visitApiCall :: "AnalyzedComponent \<Rightarrow> NodePath \<Rightarrow> AnalyzedComponent" where
  "visitApiCall s p =
     (case snd p of
        CallExpression callee args \<Rightarrow>
          (let s1 =
             (case callee of
                MemberExpression (Identifier ob) (Identifier m) \<Rightarrow>
                  if ob = ''axios'' then
                    s\<lparr>usesAxios := True,
                      apis := apis s @ [\<lparr>apitype = Axios, method' = Some m, url = urlOf args\<rparr>]\<rparr>
                  else s
              | _ \<Rightarrow> s)
           in if callee = Identifier ''fetch'' then
                s1\<lparr>usesFetch := True,
                   apis := apis s1 @ [\<lparr>apitype = Fetch, method' = None, url = urlOf args\<rparr>]\<rparr>
              else s1)
      | _ \<Rightarrow> s)"

definition visitEffect :: "AnalyzedComponent \<Rightarrow> node list \<Rightarrow> AnalyzedComponent" where
  "visitEffect s args =
     (let s1 = s\<lparr>effects := True, effectDeps := effectDeps s @ depNames args\<rparr>
      in case effectStatements args of
           None \<Rightarrow> s1
         | Some statements \<Rightarrow> foldl visitApiCall s1 (traverse (File (Program statements))))"

text \<open>
  The own properties of \<open>Object.prototype\<close>, which the object \<open>eventToSetterMap\<close>
  inherits: reading one of them gives a function (the prototype itself for \<open>__proto__\<close>),
  which is truthy and has no \<open>push\<close>.
\<close>

definition objectPrototypeKeys :: "string list" where
  "objectPrototypeKeys =
     [''constructor'', ''__defineGetter__'', ''__defineSetter__'', ''hasOwnProperty'',
      ''__lookupGetter__'', ''__lookupSetter__'', ''isPrototypeOf'', ''propertyIsEnumerable'',
      ''toString'', ''valueOf'', ''__proto__'', ''toLocaleString'']"

text \<open>
  \<open>if (!eventToSetterMap[name]) eventToSetterMap[name] = []; eventToSetterMap[name].push(setterName)\<close>
\<close>

definition pushSetter ::
  "string \<Rightarrow> string \<Rightarrow> (string \<times> string list) list \<Rightarrow> error + (string \<times> string list) list" where
  "pushSetter handler setterName m =
     (case map_of m handler of
        Some xs \<Rightarrow> Inr (AList.update handler (xs @ [setterName]) m)
      | None \<Rightarrow>
          if handler \<in> set objectPrototypeKeys
          then Inl (TypeError ''eventToSetterMap[name].push is not a function'')
          else Inr (m @ [(handler, [setterName])]))"

text \<open>
  The name derived for the nearest enclosing function \<open>handlerFunc\<close> of a path with
  ancestors \<open>anc\<close>: \<open>None\<close> when there is no enclosing function, the empty name when the
  function is neither bound by a declarator with an identifier nor a named declaration.
\<close>

definition handlerName :: "node list \<Rightarrow> string option" where
  "handlerName anc =
     (case dropWhile (\<lambda>a. \<not> isFunction a) anc of
        [] \<Rightarrow> None
      | handlerFunc # outer \<Rightarrow>
          Some (case outer of
                  VariableDeclarator (Identifier x) init # up \<Rightarrow> x
                | _ \<Rightarrow>
                    (case handlerFunc of
                       FunctionDeclaration (Some (Identifier x)) ps b \<Rightarrow> x
                     | _ \<Rightarrow> [])))"

definition visitSetterCall ::
  "AnalyzedComponent \<Rightarrow> node list \<Rightarrow> node \<Rightarrow> error + AnalyzedComponent" where
  "visitSetterCall s anc callee =
     (case callee of
        Identifier setterName \<Rightarrow>
          (case find (\<lambda>st. setter st = setterName) (states s) of
             None \<Rightarrow> Inr s
           | Some matched \<Rightarrow>
               (case handlerName anc of
                  None \<Rightarrow> Inr s
                | Some handler \<Rightarrow>
                    if handler \<noteq> [] then
                      (case pushSetter handler setterName (eventToSetterMap s) of
                         Inl e \<Rightarrow> Inl e
                       | Inr m \<Rightarrow> Inr (s\<lparr>eventToSetterMap := m\<rparr>))
                    else Inr s))
      | _ \<Rightarrow> Inr s)"

definition visitCallExpression ::
  "string \<Rightarrow> AnalyzedComponent \<Rightarrow> node list \<Rightarrow> node \<Rightarrow> node list \<Rightarrow> error + AnalyzedComponent" where
  "visitCallExpression componentName s anc callee args =
     (if \<not> isInsideComponent anc componentName then Inr s
      else visitSetterCall
             (if isHook ''useEffect'' callee then visitEffect s args else s) anc callee)"

text \<open>The visitor of pass 2: one handler per node type, every other node is passed over.\<close>

definition visit :: "string \<Rightarrow> AnalyzedComponent \<Rightarrow> NodePath \<Rightarrow> error + AnalyzedComponent" where
  "visit componentName s p =
     (case snd p of
        FunctionDeclaration i params b \<Rightarrow> Inr (visitFunctionDeclaration componentName s i params)
      | VariableDeclarator i init \<Rightarrow> Inr (visitVariableDeclarator componentName s (fst p) i init)
      | JSXElement opening cs clo \<Rightarrow> Inr (visitJSXElement componentName s (fst p) (snd p))
      | CallExpression callee args \<Rightarrow> visitCallExpression componentName s (fst p) callee args
      | _ \<Rightarrow> Inr s)"

text \<open>Running a visitor over the paths; an exception ends the traversal.\<close>

fun visitAll ::
  "('s \<Rightarrow> NodePath \<Rightarrow> error + 's) \<Rightarrow> 's \<Rightarrow> NodePath list \<Rightarrow> error + 's" where
  "visitAll v s [] = Inr s"
| "visitAll v s (p # ps) = (case v s p of Inl e \<Rightarrow> Inl e | Inr s' \<Rightarrow> visitAll v s' ps)"

definition initial :: "string \<Rightarrow> AnalyzedComponent" where
  "initial componentName =
     \<lparr>name = componentName, elements = [], states = [], effects = False, props' = [],
      usesFetch = False, usesAxios = False, apis = [], effectDeps = [], eventToSetterMap = []\<rparr>"

definition pass2 :: "string \<Rightarrow> node \<Rightarrow> error + AnalyzedComponent" where
  "pass2 componentName ast = visitAll (visit componentName) (initial componentName) (traverse ast)"

section \<open>The analyzer\<close>

text \<open>
  The file system and the parser are outside the analyzer: \<open>readFileSync filePath\<close> gives
  the text of the file or the message of the error it throws, \<open>parse code filePath\<close> the
  tree or the message of the error.
\<close>

definition analyzeComponent ::
  "(string \<Rightarrow> string + string) \<Rightarrow> (string \<Rightarrow> string \<Rightarrow> string + node) \<Rightarrow> string
     \<Rightarrow> error + AnalyzedComponent" where
  "analyzeComponent readFileSync parse filePath =
     (case readFileSync filePath of
        Inl msg \<Rightarrow> Inl (Error (''Failed to read file \"'' @ filePath @ ''\": '' @ msg))
      | Inr code \<Rightarrow>
          (case parse code filePath of
             Inl msg \<Rightarrow> Inl (Error (''Failed to parse \"'' @ filePath @ ''\": '' @ msg))
           | Inr ast \<Rightarrow> pass2 (pass1 ast) ast))"

section \<open>Reading the result off the tree\<close>

text \<open>
  The notions the properties below are stated with. The default exports of a file are
  the declarations of its \<open>ExportDefaultDeclaration\<close> nodes, in traversal order.
\<close>

definition exportsOf :: "NodePath \<Rightarrow> node list" where
  "exportsOf p = (case snd p of ExportDefaultDeclaration decl \<Rightarrow> [decl] | _ \<Rightarrow> [])"

definition defaultExports :: "node \<Rightarrow> node list" where
  "defaultExports ast = concat (map exportsOf (traverse ast))"

text \<open>
  A node defines the component \<open>cn\<close> when it is a function declaration named \<open>cn\<close> or a
  variable declarator whose identifier is \<open>cn\<close>; a path is lexically inside the component
  when one of its ancestors defines it.
\<close>

definition definesComponent :: "string \<Rightarrow> node \<Rightarrow> bool" where
  "definesComponent cn nd =
     (case nd of
        FunctionDeclaration i ps b \<Rightarrow> i = Some (Identifier cn)
      | VariableDeclarator i init \<Rightarrow> i = Identifier cn
      | _ \<Rightarrow> False)"

definition lexicallyInside :: "node list \<Rightarrow> string \<Rightarrow> bool" where
  "lexicallyInside anc cn = list_ex (definesComponent cn) anc"

fun isJSXElement :: "node \<Rightarrow> bool" where
  "isJSXElement (JSXElement opening cs clo) = True"
| "isJSXElement _ = False"

text \<open>The state pair a node declares, when it is a declarator of the recognised shape.\<close>

definition declaredState :: "node \<Rightarrow> StateInfo list" where
  "declaredState nd =
     (case nd of VariableDeclarator i init \<Rightarrow> statePair i init | _ \<Rightarrow> [])"

text \<open>
  The argument lists of the effect registrations (calls of \<open>useEffect\<close> or
  \<open>React.useEffect\<close>) that pass the scope test, in traversal order.
\<close>

definition effectArgs :: "string \<Rightarrow> NodePath \<Rightarrow> node list list" where
  "effectArgs cn p =
     (case snd p of
        CallExpression callee args \<Rightarrow>
          if isInsideComponent (fst p) cn \<and> isHook ''useEffect'' callee then [args] else []
      | _ \<Rightarrow> [])"

definition effectRegistrations :: "string \<Rightarrow> node \<Rightarrow> node list list" where
  "effectRegistrations cn ast = concat (map (effectArgs cn) (traverse ast))"

text \<open>The statement lists of their callbacks, for the registrations that have one.\<close>

definition effectBodies :: "string \<Rightarrow> node \<Rightarrow> node list list" where
  "effectBodies cn ast =
     concat (map (\<lambda>args. present (effectStatements args)) (effectRegistrations cn ast))"

text \<open>The network calls the inner traversal records on the statements of one callback.\<close>

definition scanBody :: "node list \<Rightarrow> ApiInfo list" where
  "scanBody statements =
     apis (foldl visitApiCall (initial []) (traverse (File (Program statements))))"

section \<open>Example files\<close>

text \<open>
  The trees of some small component files, for evaluating the analyzer.
  \<^verbatim>\<open>
  const Todos = () => {
    const [input, setInput] = useState("");
    useEffect(() => { fetch("https://api.example.com/x"); }, [input, 1]);
    const addTodo = () => { setInput(""); axios.post("/todos"); };
    return <div><button data-testid="add-button" onClick={addTodo}>Add</button></div>;
  };
  export default Todos;
  \<close>
\<close>

definition todosAst :: node where
  "todosAst = File (Program
     [VariableDeclaration [VariableDeclarator (Identifier ''Todos'')
        (Some (ArrowFunctionExpression [] (BlockStatement
          [VariableDeclaration [VariableDeclarator
             (ArrayPattern [Some (Identifier ''input''), Some (Identifier ''setInput'')])
             (Some (CallExpression (Identifier ''useState'') [StringLiteral '''']))],
           ExpressionStatement (CallExpression (Identifier ''useEffect'')
             [ArrowFunctionExpression [] (BlockStatement
                [ExpressionStatement (CallExpression (Identifier ''fetch'')
                   [StringLiteral ''https://api.example.com/x''])]),
              ArrayExpression [Some (Identifier ''input''), Some (NumericLiteral ''1'')]]),
           VariableDeclaration [VariableDeclarator (Identifier ''addTodo'')
             (Some (ArrowFunctionExpression [] (BlockStatement
                [ExpressionStatement (CallExpression (Identifier ''setInput'') [StringLiteral '''']),
                 ExpressionStatement (CallExpression
                   (MemberExpression (Identifier ''axios'') (Identifier ''post''))
                   [StringLiteral ''/todos''])])))],
           Other ''ReturnStatement''
             [JSXElement (JSXOpeningElement (JSXIdentifier ''div'') [])
                [JSXElement
                   (JSXOpeningElement (JSXIdentifier ''button'')
                      [JSXAttribute (JSXIdentifier ''data-testid'') (Some (StringLiteral ''add-button'')),
                       JSXAttribute (JSXIdentifier ''onClick'')
                         (Some (JSXExpressionContainer (Identifier ''addTodo'')))])
                   [JSXText ''Add'']
                   (Some (Other ''JSXClosingElement'' [JSXIdentifier ''button'']))]
                (Some (Other ''JSXClosingElement'' [JSXIdentifier ''div'']))]])))],
      ExportDefaultDeclaration (Identifier ''Todos'')])"

definition todosResult :: AnalyzedComponent where
  "todosResult =
     \<lparr>name = ''Todos'',
      elements =
        [\<lparr>type = ''div'', props = [], text' = None, testId = None, events = [], roleHint = None\<rparr>,
         \<lparr>type = ''button'',
          props = [(''data-testid'', PStr ''add-button''), (''onClick'', PStr ''expr:addTodo'')],
          text' = Some ''Add'', testId = Some ''add-button'',
          events = [(''onClick'', ''addTodo'')], roleHint = Some ''button''\<rparr>],
      states = [\<lparr>stateVar = ''input'', setter = ''setInput''\<rparr>],
      effects = True, props' = [], usesFetch = True, usesAxios = False,
      apis = [\<lparr>apitype = Fetch, method' = None, url = ''https://api.example.com/x''\<rparr>],
      effectDeps = [''input''], eventToSetterMap = []\<rparr>"

text \<open>
  \<^verbatim>\<open>
  export default function Users({ items }) {
    return <ul>{items.map((i) => <li>x</li>)}</ul>;
  }
  \<close>
\<close>

definition listItem :: node where
  "listItem = JSXElement (JSXOpeningElement (JSXIdentifier ''li'') []) [JSXText ''x'']
                (Some (Other ''JSXClosingElement'' [JSXIdentifier ''li'']))"

definition usersDeclaration :: node where
  "usersDeclaration =
     FunctionDeclaration (Some (Identifier ''Users''))
       [ObjectPattern [ObjectProperty (Identifier ''items'') (Identifier ''items'')]]
       (BlockStatement
          [Other ''ReturnStatement''
             [JSXElement (JSXOpeningElement (JSXIdentifier ''ul'') [])
                [JSXExpressionContainer (CallExpression
                   (MemberExpression (Identifier ''items'') (Identifier ''map''))
                   [ArrowFunctionExpression [Identifier ''i''] listItem])]
                (Some (Other ''JSXClosingElement'' [JSXIdentifier ''ul'']))]])"

definition listAst :: node where
  "listAst = File (Program [ExportDefaultDeclaration usersDeclaration])"

definition listResult :: AnalyzedComponent where
  "listResult =
     \<lparr>name = ''Users'',
      elements =
        [\<lparr>type = ''ul'', props = [], text' = None, testId = None, events = [], roleHint = None\<rparr>],
      states = [], effects = False, props' = [''items''], usesFetch = False, usesAxios = False,
      apis = [], effectDeps = [], eventToSetterMap = []\<rparr>"

text \<open>
  \<^verbatim>\<open>
  export default function Counter() {
    const [a, b, c] = useState(0);
    return <p>{a}</p>;
  }
  \<close>
\<close>

definition threeAst :: node where
  "threeAst = File (Program
     [ExportDefaultDeclaration (FunctionDeclaration (Some (Identifier ''Counter'')) []
        (BlockStatement
          [VariableDeclaration [VariableDeclarator
             (ArrayPattern [Some (Identifier ''a''), Some (Identifier ''b''), Some (Identifier ''c'')])
             (Some (CallExpression (Identifier ''useState'') [NumericLiteral ''0'']))],
           Other ''ReturnStatement''
             [JSXElement (JSXOpeningElement (JSXIdentifier ''p'') [])
                [JSXExpressionContainer (Identifier ''a'')]
                (Some (Other ''JSXClosingElement'' [JSXIdentifier ''p'']))]]))])"

definition threeResult :: AnalyzedComponent where
  "threeResult =
     \<lparr>name = ''Counter'',
      elements =
        [\<lparr>type = ''p'', props = [], text' = None, testId = None, events = [], roleHint = None\<rparr>],
      states = [\<lparr>stateVar = ''a'', setter = ''b''\<rparr>],
      effects = False, props' = [], usesFetch = False, usesAxios = False,
      apis = [], effectDeps = [], eventToSetterMap = []\<rparr>"

text \<open>
  \<^verbatim>\<open>
  const Counter = () => {
    const [n, setN] = useState(0);
    function toString() { setN(0); return "" + n; }
    return <p>{toString()}</p>;
  };
  export default Counter;
  \<close>
\<close>

definition counterAst :: node where
  "counterAst = File (Program
     [VariableDeclaration [VariableDeclarator (Identifier ''Counter'')
        (Some (ArrowFunctionExpression [] (BlockStatement
          [VariableDeclaration [VariableDeclarator
             (ArrayPattern [Some (Identifier ''n''), Some (Identifier ''setN'')])
             (Some (CallExpression (Identifier ''useState'') [NumericLiteral ''0'']))],
           FunctionDeclaration (Some (Identifier ''toString'')) []
             (BlockStatement
                [ExpressionStatement (CallExpression (Identifier ''setN'') [NumericLiteral ''0'']),
                 Other ''ReturnStatement''
                   [Other ''BinaryExpression'' [StringLiteral '''', Identifier ''n'']]]),
           Other ''ReturnStatement''
             [JSXElement (JSXOpeningElement (JSXIdentifier ''p'') [])
                [JSXExpressionContainer (CallExpression (Identifier ''toString'') [])]
                (Some (Other ''JSXClosingElement'' [JSXIdentifier ''p'']))]])))],
      ExportDefaultDeclaration (Identifier ''Counter'')])"

text \<open>
  \<^verbatim>\<open>
  export default function Picture() {
    return <div><img src="a.png" /><input type="TEXT" /><a href="/home">Home</a></div>;
  }
  \<close>
\<close>

definition pictureAst :: node where
  "pictureAst = File (Program
     [ExportDefaultDeclaration (FunctionDeclaration (Some (Identifier ''Picture'')) []
        (BlockStatement
          [Other ''ReturnStatement''
             [JSXElement (JSXOpeningElement (JSXIdentifier ''div'') [])
                [JSXElement
                   (JSXOpeningElement (JSXIdentifier ''img'')
                      [JSXAttribute (JSXIdentifier ''src'') (Some (StringLiteral ''a.png''))])
                   [] None,
                 JSXElement
                   (JSXOpeningElement (JSXIdentifier ''input'')
                      [JSXAttribute (JSXIdentifier ''type'') (Some (StringLiteral ''TEXT''))])
                   [] None,
                 JSXElement
                   (JSXOpeningElement (JSXIdentifier ''a'')
                      [JSXAttribute (JSXIdentifier ''href'') (Some (StringLiteral ''/home''))])
                   [JSXText ''Home'']
                   (Some (Other ''JSXClosingElement'' [JSXIdentifier ''a'']))]
                (Some (Other ''JSXClosingElement'' [JSXIdentifier ''div'']))]]))])"

definition pictureResult :: AnalyzedComponent where
  "pictureResult =
     \<lparr>name = ''Picture'',
      elements =
        [\<lparr>type = ''div'', props = [], text' = None, testId = None, events = [], roleHint = None\<rparr>,
         \<lparr>type = ''img'', props = [(''src'', PStr ''a.png'')], text' = None, testId = None,
          events = [], roleHint = Some ''img''\<rparr>,
         \<lparr>type = ''input'', props = [(''type'', PStr ''TEXT'')], text' = None, testId = None,
          events = [], roleHint = Some ''textbox''\<rparr>,
         \<lparr>type = ''a'', props = [(''href'', PStr ''/home'')], text' = Some ''Home'', testId = None,
          events = [], roleHint = Some ''link''\<rparr>],
      states = [], effects = False, props' = [], usesFetch = False, usesAxios = False,
      apis = [], effectDeps = [], eventToSetterMap = []\<rparr>"

text \<open>
  \<^verbatim>\<open>
  export default () => {
    const [a, setA] = useState(0);
    useEffect(() => { fetch("/x"); }, [a]);
    return <div onClick={() => setA(1)} />;
  };
  \<close>
\<close>

definition arrowDeclaration :: node where
  "arrowDeclaration =
     ArrowFunctionExpression [] (BlockStatement
        [VariableDeclaration [VariableDeclarator
           (ArrayPattern [Some (Identifier ''a''), Some (Identifier ''setA'')])
           (Some (CallExpression (Identifier ''useState'') [NumericLiteral ''0'']))],
         ExpressionStatement (CallExpression (Identifier ''useEffect'')
           [ArrowFunctionExpression [] (BlockStatement
              [ExpressionStatement (CallExpression (Identifier ''fetch'') [StringLiteral ''/x''])]),
            ArrayExpression [Some (Identifier ''a'')]]),
         Other ''ReturnStatement''
           [JSXElement
              (JSXOpeningElement (JSXIdentifier ''div'')
                 [JSXAttribute (JSXIdentifier ''onClick'')
                    (Some (JSXExpressionContainer (ArrowFunctionExpression []
                       (CallExpression (Identifier ''setA'') [NumericLiteral ''1'']))))])
              [] None]])"

definition arrowAst :: node where
  "arrowAst = File (Program [ExportDefaultDeclaration arrowDeclaration])"

text \<open>
  \<^verbatim>\<open>
  const Users = () => <div />;
  export default memo(Users);
  \<close>
\<close>

definition memoAst :: node where
  "memoAst = File (Program
     [VariableDeclaration [VariableDeclarator (Identifier ''Users'')
        (Some (ArrowFunctionExpression []
           (JSXElement (JSXOpeningElement (JSXIdentifier ''div'') []) [] None)))],
      ExportDefaultDeclaration (CallExpression (Identifier ''memo'') [Identifier ''Users''])])"

text \<open>
  \<^verbatim>\<open>
  const Users = () => {
    const [id, setId] = useState(0);
    const stop = useEffect(() => { fetch("/users"); }, [id]);
    return <div />;
  };
  export default Users;
  \<close>
\<close>

definition boundEffect :: node where
  "boundEffect =
     CallExpression (Identifier ''useEffect'')
       [ArrowFunctionExpression [] (BlockStatement
          [ExpressionStatement (CallExpression (Identifier ''fetch'') [StringLiteral ''/users''])]),
        ArrayExpression [Some (Identifier ''id'')]]"

definition boundEffectAst :: node where
  "boundEffectAst = File (Program
     [VariableDeclaration [VariableDeclarator (Identifier ''Users'')
        (Some (ArrowFunctionExpression [] (BlockStatement
          [VariableDeclaration [VariableDeclarator
             (ArrayPattern [Some (Identifier ''id''), Some (Identifier ''setId'')])
             (Some (CallExpression (Identifier ''useState'') [NumericLiteral ''0'']))],
           VariableDeclaration [VariableDeclarator (Identifier ''stop'') (Some boundEffect)],
           Other ''ReturnStatement''
             [JSXElement (JSXOpeningElement (JSXIdentifier ''div'') []) [] None]])))],
      ExportDefaultDeclaration (Identifier ''Users'')])"

definition boundEffectResult :: AnalyzedComponent where
  "boundEffectResult =
     \<lparr>name = ''Users'',
      elements =
        [\<lparr>type = ''div'', props = [], text' = None, testId = None, events = [], roleHint = None\<rparr>],
      states = [\<lparr>stateVar = ''id'', setter = ''setId''\<rparr>],
      effects = False, props' = [], usesFetch = False, usesAxios = False,
      apis = [], effectDeps = [], eventToSetterMap = []\<rparr>"

text \<open>
  A file system that holds the file with the anonymous default export, and a parser for
  the texts of two of the files.
\<close>

definition widgetDisk :: "string \<Rightarrow> string + string" where
  "widgetDisk p = Inr ''export default () => ...''"

definition exampleParser :: "string \<Rightarrow> string \<Rightarrow> string + node" where
  "exampleParser code p =
     (if code = ''const Todos = ...'' then Inr todosAst
      else if code = ''export default () => ...'' then Inr arrowAst
      else Inl ''Unexpected token (1:0)'')"

section \<open>The effect of a traversal on each field\<close>

lemma concat_map_if:
  "concat (map (\<lambda>p. if P p then [f p] else []) ps) = map f (filter P ps)"
  by (induction ps) auto

lemma concat_map_if_list:
  "concat (map (\<lambda>p. if P p then g p else []) ps) = concat (map g (filter P ps))"
  by (induction ps) auto

lemma concat_map_concat_map:
  "concat (map (\<lambda>p. concat (map h (e p))) ps) = concat (map h (concat (map e ps)))"
  by (induction ps) auto

lemma visitApiCall_same:
  "name (visitApiCall s p) = name s"
  "elements (visitApiCall s p) = elements s"
  "states (visitApiCall s p) = states s"
  "effects (visitApiCall s p) = effects s"
  "props' (visitApiCall s p) = props' s"
  "effectDeps (visitApiCall s p) = effectDeps s"
  "eventToSetterMap (visitApiCall s p) = eventToSetterMap s"
  by (simp_all add: visitApiCall_def Let_def split: node.splits)

lemma visitApiCall_apis:
  "apis (visitApiCall s p) = apis s @ apis (visitApiCall (initial []) p)"
  by (simp add: visitApiCall_def initial_def Let_def split: node.splits)

lemma visitApiCall_usesFetch:
  "usesFetch (visitApiCall s p) =
     (usesFetch s \<or> (\<exists>a \<in> set (apis (visitApiCall (initial []) p)). apitype a = Fetch))"
  by (auto simp add: visitApiCall_def initial_def Let_def split: node.splits)

lemma visitApiCall_usesAxios:
  "usesAxios (visitApiCall s p) =
     (usesAxios s \<or> (\<exists>a \<in> set (apis (visitApiCall (initial []) p)). apitype a = Axios))"
  by (auto simp add: visitApiCall_def initial_def Let_def split: node.splits)


lemma scan_same:
  "name (foldl visitApiCall s ps) = name s"
  "elements (foldl visitApiCall s ps) = elements s"
  "states (foldl visitApiCall s ps) = states s"
  "effects (foldl visitApiCall s ps) = effects s"
  "props' (foldl visitApiCall s ps) = props' s"
  "effectDeps (foldl visitApiCall s ps) = effectDeps s"
  "eventToSetterMap (foldl visitApiCall s ps) = eventToSetterMap s"
  by (induction ps arbitrary: s; simp add: visitApiCall_same)+

lemma scan_apis:
  "apis (foldl visitApiCall s ps) = apis s @ apis (foldl visitApiCall (initial []) ps)"
proof (induction ps arbitrary: s)
  case Nil
  show ?case by (simp add: initial_def)
next
  case (Cons p ps)
  have "apis (foldl visitApiCall s (p # ps)) =
          apis (visitApiCall s p) @ apis (foldl visitApiCall (initial []) ps)"
    using Cons.IH [of "visitApiCall s p"] by simp
  also have "\<dots> = apis s @ apis (visitApiCall (initial []) p)
                      @ apis (foldl visitApiCall (initial []) ps)"
    by (simp add: visitApiCall_apis [of s])
  also have "apis (visitApiCall (initial []) p) @ apis (foldl visitApiCall (initial []) ps)
               = apis (foldl visitApiCall (initial []) (p # ps))"
    using Cons.IH [of "visitApiCall (initial []) p"] by simp
  finally show ?case .
qed

lemma scan_usesFetch:
  "usesFetch (foldl visitApiCall s ps) =
     (usesFetch s \<or> (\<exists>a \<in> set (apis (foldl visitApiCall (initial []) ps)). apitype a = Fetch))"
proof (induction ps arbitrary: s)
  case Nil
  show ?case by (simp add: initial_def)
next
  case (Cons p ps)
  have split: "apis (foldl visitApiCall (initial []) (p # ps)) =
          apis (visitApiCall (initial []) p) @ apis (foldl visitApiCall (initial []) ps)"
    using scan_apis [of "visitApiCall (initial []) p" ps] by simp
  have "usesFetch (foldl visitApiCall s (p # ps)) =
          (usesFetch (visitApiCall s p)
             \<or> (\<exists>a \<in> set (apis (foldl visitApiCall (initial []) ps)). apitype a = Fetch))"
    using Cons.IH [of "visitApiCall s p"] by simp
  then show ?case
    unfolding split visitApiCall_usesFetch [of s] by auto
qed

lemma scan_usesAxios:
  "usesAxios (foldl visitApiCall s ps) =
     (usesAxios s \<or> (\<exists>a \<in> set (apis (foldl visitApiCall (initial []) ps)). apitype a = Axios))"
proof (induction ps arbitrary: s)
  case Nil
  show ?case by (simp add: initial_def)
next
  case (Cons p ps)
  have split: "apis (foldl visitApiCall (initial []) (p # ps)) =
          apis (visitApiCall (initial []) p) @ apis (foldl visitApiCall (initial []) ps)"
    using scan_apis [of "visitApiCall (initial []) p" ps] by simp
  have "usesAxios (foldl visitApiCall s (p # ps)) =
          (usesAxios (visitApiCall s p)
             \<or> (\<exists>a \<in> set (apis (foldl visitApiCall (initial []) ps)). apitype a = Axios))"
    using Cons.IH [of "visitApiCall s p"] by simp
  then show ?case
    unfolding split visitApiCall_usesAxios [of s] by auto
qed

text \<open>The network calls one registration adds.\<close>

lemma visitEffect_same:
  "name (visitEffect s args) = name s"
  "elements (visitEffect s args) = elements s"
  "states (visitEffect s args) = states s"
  "props' (visitEffect s args) = props' s"
  "eventToSetterMap (visitEffect s args) = eventToSetterMap s"
  by (simp_all add: visitEffect_def Let_def scan_same split: option.splits)

lemma visitEffect_effects: "effects (visitEffect s args) = True"
  by (simp add: visitEffect_def Let_def scan_same split: option.splits)

lemma visitEffect_effectDeps: "effectDeps (visitEffect s args) = effectDeps s @ depNames args"
  by (simp add: visitEffect_def Let_def scan_same split: option.splits)

lemma visitEffect_apis:
  "apis (visitEffect s args) = apis s @ concat (map scanBody (present (effectStatements args)))"
  by (simp add: visitEffect_def Let_def present_def scanBody_def scan_apis [of "s\<lparr>effects := True, effectDeps := effectDeps s @ depNames args\<rparr>"]
        split: option.splits)

lemma visitEffect_usesFetch:
  "usesFetch (visitEffect s args) =
     (usesFetch s \<or> (\<exists>a \<in> set (concat (map scanBody (present (effectStatements args)))). apitype a = Fetch))"
  by (simp add: visitEffect_def Let_def present_def scanBody_def scan_usesFetch [of "s\<lparr>effects := True, effectDeps := effectDeps s @ depNames args\<rparr>"]
        split: option.splits)

lemma visitEffect_usesAxios:
  "usesAxios (visitEffect s args) =
     (usesAxios s \<or> (\<exists>a \<in> set (concat (map scanBody (present (effectStatements args)))). apitype a = Axios))"
  by (simp add: visitEffect_def Let_def present_def scanBody_def scan_usesAxios [of "s\<lparr>effects := True, effectDeps := effectDeps s @ depNames args\<rparr>"]
        split: option.splits)

text \<open>The setter mapping touches nothing but \<open>eventToSetterMap\<close>.\<close>

lemma visitSetterCall_same:
  assumes "visitSetterCall s anc callee = Inr s'"
  shows "\<exists>m. s' = s\<lparr>eventToSetterMap := m\<rparr>"
proof (cases callee)
  case (Identifier x)
  with assms show ?thesis
    by (auto simp: visitSetterCall_def split: option.splits if_splits sum.splits
             intro: exI [of _ "eventToSetterMap s"])
qed (use assms in \<open>auto simp: visitSetterCall_def intro: exI [of _ "eventToSetterMap s"]\<close>)


lemma collectPropsFromParams_same:
  "name (collectPropsFromParams ps s) = name s"
  "elements (collectPropsFromParams ps s) = elements s"
  "states (collectPropsFromParams ps s) = states s"
  "effects (collectPropsFromParams ps s) = effects s"
  "usesFetch (collectPropsFromParams ps s) = usesFetch s"
  "usesAxios (collectPropsFromParams ps s) = usesAxios s"
  "apis (collectPropsFromParams ps s) = apis s"
  "effectDeps (collectPropsFromParams ps s) = effectDeps s"
  "eventToSetterMap (collectPropsFromParams ps s) = eventToSetterMap s"
  by (simp_all add: collectPropsFromParams_def split: list.splits node.splits)

lemma visitFunctionDeclaration_same:
  "name (visitFunctionDeclaration cn s i ps) = name s"
  "elements (visitFunctionDeclaration cn s i ps) = elements s"
  "states (visitFunctionDeclaration cn s i ps) = states s"
  "effects (visitFunctionDeclaration cn s i ps) = effects s"
  "usesFetch (visitFunctionDeclaration cn s i ps) = usesFetch s"
  "usesAxios (visitFunctionDeclaration cn s i ps) = usesAxios s"
  "apis (visitFunctionDeclaration cn s i ps) = apis s"
  "effectDeps (visitFunctionDeclaration cn s i ps) = effectDeps s"
  "eventToSetterMap (visitFunctionDeclaration cn s i ps) = eventToSetterMap s"
  by (simp_all add: visitFunctionDeclaration_def collectPropsFromParams_same
        split: option.splits node.splits)

lemma visitVariableDeclarator_same:
  "name (visitVariableDeclarator cn s anc i init) = name s"
  "elements (visitVariableDeclarator cn s anc i init) = elements s"
  "effects (visitVariableDeclarator cn s anc i init) = effects s"
  "usesFetch (visitVariableDeclarator cn s anc i init) = usesFetch s"
  "usesAxios (visitVariableDeclarator cn s anc i init) = usesAxios s"
  "apis (visitVariableDeclarator cn s anc i init) = apis s"
  "effectDeps (visitVariableDeclarator cn s anc i init) = effectDeps s"
  "eventToSetterMap (visitVariableDeclarator cn s anc i init) = eventToSetterMap s"
  by (simp_all add: visitVariableDeclarator_def Let_def collectPropsFromParams_same
        split: option.splits node.splits)

lemma visitVariableDeclarator_states:
  "states (visitVariableDeclarator cn s anc i init) =
     states s @ (if isInsideComponent anc cn then statePair i init else [])"
  by (simp add: visitVariableDeclarator_def Let_def collectPropsFromParams_same
        split: option.splits node.splits)

lemma visitCallExpression_Inr:
  assumes "visitCallExpression cn s anc callee args = Inr s'"
  shows "\<exists>m. s' = (if isInsideComponent anc cn \<and> isHook ''useEffect'' callee
                    then visitEffect s args else s)\<lparr>eventToSetterMap := m\<rparr>"
proof (cases "isInsideComponent anc cn")
  case True
  with assms show ?thesis
    by (auto simp: visitCallExpression_def dest: visitSetterCall_same)
next
  case False
  with assms have "s' = s" by (simp add: visitCallExpression_def)
  with False show ?thesis by (auto intro: exI [of _ "eventToSetterMap s"])
qed

text \<open>What one visit adds to each field, \<open>eventToSetterMap\<close> and \<open>props'\<close> apart.\<close>

lemma visit_Inr:
  assumes "visit cn s p = Inr s'"
  shows "name s' = name s"
    and "elements s' = elements s @
           (if isJSXElement (snd p) \<and> isInsideComponent (fst p) cn then [elementInfo (snd p)] else [])"
    and "states s' = states s @ (if isInsideComponent (fst p) cn then declaredState (snd p) else [])"
    and "effects s' = (effects s \<or> effectArgs cn p \<noteq> [])"
    and "effectDeps s' = effectDeps s @ concat (map depNames (effectArgs cn p))"
    and "apis s' = apis s @
           concat (map (\<lambda>args. concat (map scanBody (present (effectStatements args)))) (effectArgs cn p))"
    and "usesFetch s' = (usesFetch s \<or>
           (\<exists>a \<in> set (concat (map (\<lambda>args. concat (map scanBody (present (effectStatements args))))
                                 (effectArgs cn p))). apitype a = Fetch))"
    and "usesAxios s' = (usesAxios s \<or>
           (\<exists>a \<in> set (concat (map (\<lambda>args. concat (map scanBody (present (effectStatements args))))
                                 (effectArgs cn p))). apitype a = Axios))"
proof -
  consider (fd) i ps b where "snd p = FunctionDeclaration i ps b"
    | (vd) i init where "snd p = VariableDeclarator i init"
    | (jsx) ope cs clo where "snd p = JSXElement ope cs clo"
    | (call) callee args where "snd p = CallExpression callee args"
    | (other) "visit cn s p = Inr s" "\<not> isJSXElement (snd p)" "declaredState (snd p) = []"
        "effectArgs cn p = []"
    by (cases "snd p") (simp_all add: visit_def declaredState_def effectArgs_def)
  then have "name s' = name s
    \<and> elements s' = elements s @
           (if isJSXElement (snd p) \<and> isInsideComponent (fst p) cn then [elementInfo (snd p)] else [])
    \<and> states s' = states s @ (if isInsideComponent (fst p) cn then declaredState (snd p) else [])
    \<and> effects s' = (effects s \<or> effectArgs cn p \<noteq> [])
    \<and> effectDeps s' = effectDeps s @ concat (map depNames (effectArgs cn p))
    \<and> apis s' = apis s @
           concat (map (\<lambda>args. concat (map scanBody (present (effectStatements args)))) (effectArgs cn p))
    \<and> usesFetch s' = (usesFetch s \<or>
           (\<exists>a \<in> set (concat (map (\<lambda>args. concat (map scanBody (present (effectStatements args))))
                                 (effectArgs cn p))). apitype a = Fetch))
    \<and> usesAxios s' = (usesAxios s \<or>
           (\<exists>a \<in> set (concat (map (\<lambda>args. concat (map scanBody (present (effectStatements args))))
                                 (effectArgs cn p))). apitype a = Axios))"
  proof cases
    case fd
    with assms have "s' = visitFunctionDeclaration cn s i ps" by (simp add: visit_def)
    with fd show ?thesis
      by (simp add: visitFunctionDeclaration_same declaredState_def effectArgs_def)
  next
    case vd
    with assms have "s' = visitVariableDeclarator cn s (fst p) i init" by (simp add: visit_def)
    with vd show ?thesis
      by (simp add: visitVariableDeclarator_same visitVariableDeclarator_states
            declaredState_def effectArgs_def)
  next
    case jsx
    with assms have "s' = visitJSXElement cn s (fst p) (snd p)" by (simp add: visit_def)
    with jsx show ?thesis
      by (simp add: visitJSXElement_def declaredState_def effectArgs_def)
  next
    case call
    with assms have "visitCallExpression cn s (fst p) callee args = Inr s'"
      by (simp add: visit_def)
    then obtain m where
      "s' = (if isInsideComponent (fst p) cn \<and> isHook ''useEffect'' callee
             then visitEffect s args else s)\<lparr>eventToSetterMap := m\<rparr>"
      using visitCallExpression_Inr by blast
    with call show ?thesis
      by (cases "isInsideComponent (fst p) cn \<and> isHook ''useEffect'' callee")
         (auto simp add: declaredState_def effectArgs_def visitEffect_same visitEffect_effects
            visitEffect_effectDeps visitEffect_apis visitEffect_usesFetch visitEffect_usesAxios)
  next
    case other
    with assms show ?thesis by simp
  qed
  then show "name s' = name s"
    and "elements s' = elements s @
           (if isJSXElement (snd p) \<and> isInsideComponent (fst p) cn then [elementInfo (snd p)] else [])"
    and "states s' = states s @ (if isInsideComponent (fst p) cn then declaredState (snd p) else [])"
    and "effects s' = (effects s \<or> effectArgs cn p \<noteq> [])"
    and "effectDeps s' = effectDeps s @ concat (map depNames (effectArgs cn p))"
    and "apis s' = apis s @
           concat (map (\<lambda>args. concat (map scanBody (present (effectStatements args)))) (effectArgs cn p))"
    and "usesFetch s' = (usesFetch s \<or>
           (\<exists>a \<in> set (concat (map (\<lambda>args. concat (map scanBody (present (effectStatements args))))
                                 (effectArgs cn p))). apitype a = Fetch))"
    and "usesAxios s' = (usesAxios s \<or>
           (\<exists>a \<in> set (concat (map (\<lambda>args. concat (map scanBody (present (effectStatements args))))
                                 (effectArgs cn p))). apitype a = Axios))"
    by blast+
qed


lemma visitAll_Cons_Inr:
  assumes "visitAll v s (p # ps) = Inr r"
  obtains s1 where "v s p = Inr s1" and "visitAll v s1 ps = Inr r"
  using assms by (cases "v s p") auto

lemma visitAll_project:
  assumes step: "\<And>s p s'. v s p = Inr s' \<Longrightarrow> f s' = g (f s) p"
    and run: "visitAll v s ps = Inr r"
  shows "f r = foldl g (f s) ps"
  using run
proof (induction ps arbitrary: s)
  case Nil
  then show ?case by simp
next
  case (Cons p ps)
  from Cons.prems obtain s1 where s1: "v s p = Inr s1" and rest: "visitAll v s1 ps = Inr r"
    by (rule visitAll_Cons_Inr)
  from Cons.IH [OF rest] step [OF s1] show ?case by simp
qed

lemma foldl_append_concat: "foldl (\<lambda>xs p. xs @ h p) a ps = a @ concat (map h ps)"
  by (induction ps arbitrary: a) simp_all

lemma foldl_or_ex: "foldl (\<lambda>b p. b \<or> q p) a ps = (a \<or> (\<exists>p \<in> set ps. q p))"
  by (induction ps arbitrary: a) auto

lemma foldl_const: "foldl (\<lambda>x p. x) a ps = a"
  by (induction ps) simp_all

lemma pass2_name:
  assumes "pass2 cn ast = Inr r"
  shows "name r = cn"
proof -
  have "name r = foldl (\<lambda>x p. x) (name (initial cn)) (traverse ast)"
    using assms unfolding pass2_def
    by (rule visitAll_project [rotated]) (rule visit_Inr(1))
  then show ?thesis by (simp add: foldl_const initial_def)
qed

lemma pass2_elements:
  assumes "pass2 cn ast = Inr r"
  shows "elements r =
     map (\<lambda>p. elementInfo (snd p))
       (filter (\<lambda>p. isJSXElement (snd p) \<and> isInsideComponent (fst p) cn) (traverse ast))"
proof -
  have "elements r =
      foldl (\<lambda>xs p. xs @ (if isJSXElement (snd p) \<and> isInsideComponent (fst p) cn
                            then [elementInfo (snd p)] else []))
        (elements (initial cn)) (traverse ast)"
    using assms unfolding pass2_def
    by (rule visitAll_project [rotated]) (rule visit_Inr(2))
  then show ?thesis
    by (simp add: foldl_append_concat initial_def concat_map_if)
qed

lemma pass2_states:
  assumes "pass2 cn ast = Inr r"
  shows "states r =
     concat (map (\<lambda>p. declaredState (snd p))
       (filter (\<lambda>p. isInsideComponent (fst p) cn) (traverse ast)))"
proof -
  have "states r =
      foldl (\<lambda>xs p. xs @ (if isInsideComponent (fst p) cn then declaredState (snd p) else []))
        (states (initial cn)) (traverse ast)"
    using assms unfolding pass2_def
    by (rule visitAll_project [rotated]) (rule visit_Inr(3))
  then show ?thesis
    by (simp add: foldl_append_concat initial_def concat_map_if_list)
qed

lemma pass2_effects:
  assumes "pass2 cn ast = Inr r"
  shows "effects r = (effectRegistrations cn ast \<noteq> [])"
proof -
  have "effects r =
      foldl (\<lambda>b p. b \<or> effectArgs cn p \<noteq> []) (effects (initial cn)) (traverse ast)"
    using assms unfolding pass2_def
    by (rule visitAll_project [rotated]) (rule visit_Inr(4))
  then show ?thesis
    by (simp add: foldl_or_ex initial_def effectRegistrations_def)
qed

lemma pass2_effectDeps:
  assumes "pass2 cn ast = Inr r"
  shows "effectDeps r = concat (map depNames (effectRegistrations cn ast))"
proof -
  have "effectDeps r =
      foldl (\<lambda>xs p. xs @ concat (map depNames (effectArgs cn p)))
        (effectDeps (initial cn)) (traverse ast)"
    using assms unfolding pass2_def
    by (rule visitAll_project [rotated]) (rule visit_Inr(5))
  then show ?thesis
    by (simp add: foldl_append_concat initial_def effectRegistrations_def concat_map_concat_map)
qed

lemma pass2_apis:
  assumes "pass2 cn ast = Inr r"
  shows "apis r = concat (map scanBody (effectBodies cn ast))"
proof -
  have "apis r =
      foldl (\<lambda>xs p. xs @ concat (map (\<lambda>args. concat (map scanBody (present (effectStatements args))))
                                  (effectArgs cn p)))
        (apis (initial cn)) (traverse ast)"
    using assms unfolding pass2_def
    by (rule visitAll_project [rotated]) (rule visit_Inr(6))
  then show ?thesis
    by (simp add: foldl_append_concat initial_def effectRegistrations_def effectBodies_def
          concat_map_concat_map)
qed


lemma pass2_apis_raw:
  assumes "pass2 cn ast = Inr r"
  shows "apis r =
     concat (map (\<lambda>p. concat (map (\<lambda>args. concat (map scanBody (present (effectStatements args))))
                                 (effectArgs cn p))) (traverse ast))"
proof -
  have "apis r =
      foldl (\<lambda>xs p. xs @ concat (map (\<lambda>args. concat (map scanBody (present (effectStatements args))))
                                  (effectArgs cn p)))
        (apis (initial cn)) (traverse ast)"
    using assms unfolding pass2_def
    by (rule visitAll_project [rotated]) (rule visit_Inr(6))
  then show ?thesis
    by (simp add: foldl_append_concat initial_def)
qed

lemma pass2_usesFetch:
  assumes "pass2 cn ast = Inr r"
  shows "usesFetch r = (\<exists>a \<in> set (apis r). apitype a = Fetch)"
proof -
  have "usesFetch r =
      foldl (\<lambda>b p. b \<or> (\<exists>a \<in> set (concat (map (\<lambda>args. concat (map scanBody (present (effectStatements args))))
                                 (effectArgs cn p))). apitype a = Fetch))
        (usesFetch (initial cn)) (traverse ast)"
    using assms unfolding pass2_def
    by (rule visitAll_project [rotated]) (rule visit_Inr(7))
  then have "usesFetch r =
      (\<exists>p \<in> set (traverse ast).
         \<exists>a \<in> set (concat (map (\<lambda>args. concat (map scanBody (present (effectStatements args))))
                                 (effectArgs cn p))). apitype a = Fetch)"
    by (simp only: foldl_or_ex) (simp add: initial_def)
  also have "\<dots> = (\<exists>a \<in> set (apis r). apitype a = Fetch)"
    unfolding pass2_apis_raw [OF assms] by auto
  finally show ?thesis .
qed

lemma pass2_usesAxios:
  assumes "pass2 cn ast = Inr r"
  shows "usesAxios r = (\<exists>a \<in> set (apis r). apitype a = Axios)"
proof -
  have "usesAxios r =
      foldl (\<lambda>b p. b \<or> (\<exists>a \<in> set (concat (map (\<lambda>args. concat (map scanBody (present (effectStatements args))))
                                 (effectArgs cn p))). apitype a = Axios))
        (usesAxios (initial cn)) (traverse ast)"
    using assms unfolding pass2_def
    by (rule visitAll_project [rotated]) (rule visit_Inr(8))
  then have "usesAxios r =
      (\<exists>p \<in> set (traverse ast).
         \<exists>a \<in> set (concat (map (\<lambda>args. concat (map scanBody (present (effectStatements args))))
                                 (effectArgs cn p))). apitype a = Axios)"
    by (simp only: foldl_or_ex) (simp add: initial_def)
  also have "\<dots> = (\<exists>a \<in> set (apis r). apitype a = Axios)"
    unfolding pass2_apis_raw [OF assms] by auto
  finally show ?thesis .
qed

section \<open>Scope and the tree\<close>

lemma paths_ancestors:
  "(anc, nd) \<in> set (paths anc0 n) \<Longrightarrow> a \<in> set anc
     \<Longrightarrow> a \<in> set anc0 \<or> a \<in> snd ` set (paths anc0 n)"
proof (induction anc0 n arbitrary: anc nd rule: paths.induct)
  case (1 anc0 n)
  from "1.prems"(1) consider "(anc, nd) = (anc0, n)"
    | c where "c \<in> set (children n)" "(anc, nd) \<in> set (paths (n # anc0) c)"
    by (subst (asm) paths.simps) auto
  then show ?case
  proof cases
    case 1
    with "1.prems"(2) show ?thesis by simp
  next
    case 2
    from "1.IH" [OF 2 "1.prems"(2)]
    have "a \<in> set (n # anc0) \<or> a \<in> snd ` set (paths (n # anc0) c)" .
    moreover have "n \<in> snd ` set (paths anc0 n)"
      by (subst paths.simps) simp
    moreover have "snd ` set (paths (n # anc0) c) \<subseteq> snd ` set (paths anc0 n)"
      using 2(1) by (subst (2) paths.simps) auto
    ultimately show ?thesis by auto
  qed
qed

lemma traverse_ancestors:
  assumes "(anc, nd) \<in> set (traverse ast)" and "a \<in> set anc"
  shows "a \<in> snd ` set (traverse ast)"
proof -
  from assms(1) obtain c where c: "c \<in> set (children ast)" "(anc, nd) \<in> set (paths [] c)"
    by (auto simp: traverse_def)
  from paths_ancestors [OF c(2) assms(2)] have "a \<in> snd ` set (paths [] c)" by simp
  with c(1) show ?thesis by (auto simp: traverse_def)
qed

lemma inside_lexically:
  assumes "isInsideComponent anc cn"
  shows "lexicallyInside anc cn"
proof -
  from assms consider ps b where "getFunctionParent anc = Some (FunctionDeclaration (Some (Identifier cn)) ps b)"
    | init where "findParent isVariableDeclarator anc = Some (VariableDeclarator (Identifier cn) init)"
    by (auto simp: isInsideComponent_def split: option.splits node.splits)
  then show ?thesis
  proof cases
    case 1
    then have "FunctionDeclaration (Some (Identifier cn)) ps b \<in> set anc"
      by (auto simp: getFunctionParent_def findParent_def find_Some_iff)
    moreover have "definesComponent cn (FunctionDeclaration (Some (Identifier cn)) ps b)"
      by (simp add: definesComponent_def)
    ultimately show ?thesis
      unfolding lexicallyInside_def list_ex_iff by blast
  next
    case 2
    then have "VariableDeclarator (Identifier cn) init \<in> set anc"
      by (auto simp: findParent_def find_Some_iff)
    moreover have "definesComponent cn (VariableDeclarator (Identifier cn) init)"
      by (simp add: definesComponent_def)
    ultimately show ?thesis
      unfolding lexicallyInside_def list_ex_iff by blast
  qed
qed

lemma visit_outside:
  assumes "\<not> isInsideComponent (fst p) cn" and "\<not> definesComponent cn (snd p)"
  shows "visit cn s p = Inr s"
proof (cases "snd p")
  case (FunctionDeclaration i ps b)
  with assms(2) show ?thesis
    by (auto simp: visit_def visitFunctionDeclaration_def definesComponent_def
          split: option.splits node.splits)
next
  case (VariableDeclarator i init)
  with assms show ?thesis
    by (auto simp: visit_def visitVariableDeclarator_def definesComponent_def
          split: option.splits node.splits)
next
  case (JSXElement ope cs clo)
  with assms(1) show ?thesis by (simp add: visit_def visitJSXElement_def)
next
  case (CallExpression callee args)
  with assms(1) show ?thesis by (simp add: visit_def visitCallExpression_def)
qed (simp_all add: visit_def)

lemma visitAll_unchanged:
  assumes "\<forall>p \<in> set ps. v s p = Inr s"
  shows "visitAll v s ps = Inr s"
  using assms by (induction ps) simp_all

lemma nothing_in_scope:
  assumes "\<forall>p \<in> set (traverse ast). \<not> definesComponent cn (snd p)"
  shows "pass2 cn ast = Inr (initial cn)"
proof -
  have "visit cn (initial cn) p = Inr (initial cn)" if p: "p \<in> set (traverse ast)" for p
  proof (rule visit_outside)
    show "\<not> definesComponent cn (snd p)" using assms p by blast
    show "\<not> isInsideComponent (fst p) cn"
    proof
      assume "isInsideComponent (fst p) cn"
      then have "lexicallyInside (fst p) cn" by (rule inside_lexically)
      then obtain a where a: "a \<in> set (fst p)" "definesComponent cn a"
        by (auto simp: lexicallyInside_def list_ex_iff)
      from p have "(fst p, snd p) \<in> set (traverse ast)" by simp
      from traverse_ancestors [OF this a(1)] obtain q
        where "q \<in> set (traverse ast)" "snd q = a" by auto
      with assms a(2) show False by blast
    qed
  qed
  then show ?thesis
    unfolding pass2_def by (intro visitAll_unchanged) blast
qed

lemma locate_exportsOf:
  "locate n p =
     foldl (\<lambda>n decl. case unwrapDefaultExport decl of
                        Some x \<Rightarrow> if x \<noteq> [] then x else n
                      | None \<Rightarrow> n) n (exportsOf p)"
  by (cases "snd p") (simp_all add: locate_def exportsOf_def)

lemma foldl_locate:
  "foldl locate n ps =
     foldl (\<lambda>n decl. case unwrapDefaultExport decl of
                        Some x \<Rightarrow> if x \<noteq> [] then x else n
                      | None \<Rightarrow> n) n (concat (map exportsOf ps))"
proof (induction ps arbitrary: n)
  case Nil
  show ?case by simp
next
  case (Cons p ps)
  show ?case
    by (simp only: foldl_Cons list.map concat.simps foldl_append Cons.IH
          locate_exportsOf [of n p])
qed

lemma pass1_defaultExports:
  "pass1 ast =
     foldl (\<lambda>n decl. case unwrapDefaultExport decl of
                        Some x \<Rightarrow> if x \<noteq> [] then x else n
                      | None \<Rightarrow> n) ''Anonymous'' (defaultExports ast)"
  by (simp add: pass1_def defaultExports_def foldl_locate)

lemma pass1_unresolved:
  assumes "\<forall>decl \<in> set (defaultExports ast). unwrapDefaultExport decl = None"
  shows "pass1 ast = ''Anonymous''"
proof -
  have "foldl (\<lambda>n decl. case unwrapDefaultExport decl of
                        Some x \<Rightarrow> if x \<noteq> [] then x else n
                      | None \<Rightarrow> n) n ds = n"
    if "\<forall>decl \<in> set ds. unwrapDefaultExport decl = None" for n :: string and ds
    using that by (induction ds arbitrary: n) simp_all
  with assms show ?thesis by (simp add: pass1_defaultExports)
qed

section \<open>The analyzer on the example files\<close>

lemma pass2_todosAst: "pass2 ''Todos'' todosAst = Inr todosResult"
  by code_simp

lemma pass2_listAst: "pass2 ''Users'' listAst = Inr listResult"
  by code_simp

lemma pass2_threeAst: "pass2 ''Counter'' threeAst = Inr threeResult"
  by code_simp

lemma pass2_pictureAst: "pass2 ''Picture'' pictureAst = Inr pictureResult"
  by code_simp

section \<open>The claims\<close>

subsection \<open>C1: which markup nodes give an element record\<close>

text \<open>
  Claim C1 (every markup node lexically inside the component's definition, nodes nested in
  local helper functions included, yields exactly one element record). On the file
  \<open>listAst\<close> the component is the function declaration \<open>Users\<close>; the element \<open>li\<close>
  lies inside it, within the arrow function passed to \<open>map\<close>. The scope test looks at
  the nearest enclosing function, which is that arrow function, and at the nearest
  enclosing variable declarator, of which there is none; so \<open>li\<close> is lexically inside the
  component, fails the scope test, and the result holds the record of \<open>ul\<close> alone.
\<close>

theorem C1_nested_markup_dropped:
  "pass1 listAst = ''Users''
   \<and> pass2 ''Users'' listAst = Inr listResult
   \<and> map type (elements listResult) = [''ul'']
   \<and> list_ex (\<lambda>p. snd p = listItem \<and> lexicallyInside (fst p) ''Users''
                    \<and> \<not> isInsideComponent (fst p) ''Users'') (traverse listAst)"
proof -
  have "pass1 listAst = ''Users''" by code_simp
  moreover have "map type (elements listResult) = [''ul'']" by code_simp
  moreover have "list_ex (\<lambda>p. snd p = listItem \<and> lexicallyInside (fst p) ''Users''
                    \<and> \<not> isInsideComponent (fst p) ''Users'') (traverse listAst)"
    by code_simp
  ultimately show ?thesis using pass2_listAst by blast
qed

subsection \<open>C2: handlers and the setters they call\<close>

text \<open>
  Claim C2 (a setter called inside the handler \<open>const addTodo = () => { setInput(""); }\<close>
  is recorded under \<open>addTodo\<close> in \<open>eventToSetterMap\<close>). On the file \<open>todosAst\<close>, which
  holds exactly this handler inside the component \<open>Todos\<close>, \<open>setInput\<close> is a recorded
  setter, yet \<open>eventToSetterMap\<close> has no entry \<open>addTodo\<close>: the nearest variable
  declarator around the call is \<open>addTodo\<close>, not \<open>Todos\<close>, so the call fails the scope
  test before the mapping is reached.
\<close>

theorem C2_arrow_handler_not_mapped:
  "pass1 todosAst = ''Todos''
   \<and> pass2 ''Todos'' todosAst = Inr todosResult
   \<and> states todosResult = [\<lparr>stateVar = ''input'', setter = ''setInput''\<rparr>]
   \<and> map_of (eventToSetterMap todosResult) ''addTodo'' = None"
proof -
  have "pass1 todosAst = ''Todos''" by code_simp
  moreover have "states todosResult = [\<lparr>stateVar = ''input'', setter = ''setInput''\<rparr>]"
    by (simp add: todosResult_def)
  moreover have "map_of (eventToSetterMap todosResult) ''addTodo'' = None"
    by (simp add: todosResult_def)
  ultimately show ?thesis using pass2_todosAst by blast
qed

subsection \<open>C3: state pairs\<close>

lemma statePair_nonempty:
  assumes "statePair i init \<noteq> []"
  shows "\<exists>v w rest callee args.
           i = ArrayPattern (Some (Identifier v) # Some (Identifier w) # rest)
           \<and> init = Some (CallExpression callee args) \<and> isHook ''useState'' callee"
proof -
  from assms obtain els where i: "i = ArrayPattern els"
    by (cases i) (simp_all add: statePair_def)
  from assms i obtain nd where init: "init = Some nd"
    by (cases init) (simp_all add: statePair_def)
  from assms i init obtain callee args where nd: "nd = CallExpression callee args"
    by (cases nd) (simp_all add: statePair_def)
  from assms i init nd have hook: "isHook ''useState'' callee"
    by (simp add: statePair_def split: if_splits)
  from assms i init nd hook obtain e1 e2 rest where els: "els = e1 # e2 # rest"
    by (cases els; cases "tl els") (auto simp: statePair_def split: option.splits node.splits)
  from assms i init nd hook els obtain n1 where e1: "e1 = Some n1"
    by (cases e1) (simp_all add: statePair_def)
  from assms i init nd hook els e1 obtain v where n1: "n1 = Identifier v"
    by (cases n1) (simp_all add: statePair_def)
  from assms i init nd hook els e1 n1 obtain n2 where e2: "e2 = Some n2"
    by (cases e2) (simp_all add: statePair_def)
  from assms i init nd hook els e1 n1 e2 obtain w where n2: "n2 = Identifier w"
    by (cases n2) (simp_all add: statePair_def)
  from i init nd hook els e1 n1 e2 n2 show ?thesis by blast
qed

text \<open>
  Claim C3, as amended. The state pairs of the result are those declared by the variable
  declarators that pass the scope test, in traversal order. A declarator declares a pair
  exactly when its pattern is an array pattern whose first two elements are identifiers
  and its initializer is a call of \<open>useState\<close> or \<open>React.useState\<close>; the pair is these
  two names in this order, whatever elements follow them in the pattern. Any other node
  declares none.
\<close>

theorem C3_state_pairs:
  assumes "pass2 cn ast = Inr r"
  shows "states r =
           concat (map (\<lambda>p. declaredState (snd p))
             (filter (\<lambda>p. isInsideComponent (fst p) cn) (traverse ast)))
       \<and> (\<forall>v w rest callee args.
            callee = Identifier ''useState''
              \<or> callee = MemberExpression (Identifier ''React'') (Identifier ''useState'') \<longrightarrow>
            declaredState
              (VariableDeclarator (ArrayPattern (Some (Identifier v) # Some (Identifier w) # rest))
                 (Some (CallExpression callee args)))
            = [\<lparr>stateVar = v, setter = w\<rparr>])
       \<and> (\<forall>nd.
            \<not> (\<exists>v w rest callee args.
                 nd = VariableDeclarator
                        (ArrayPattern (Some (Identifier v) # Some (Identifier w) # rest))
                        (Some (CallExpression callee args))
                 \<and> (callee = Identifier ''useState''
                      \<or> callee = MemberExpression (Identifier ''React'') (Identifier ''useState''))) \<longrightarrow>
            declaredState nd = [])"
proof (intro conjI allI impI)
  show "states r =
           concat (map (\<lambda>p. declaredState (snd p))
             (filter (\<lambda>p. isInsideComponent (fst p) cn) (traverse ast)))"
    using assms by (rule pass2_states)
next
  fix v w rest callee args
  assume "callee = Identifier ''useState''
              \<or> callee = MemberExpression (Identifier ''React'') (Identifier ''useState'')"
  then show "declaredState
              (VariableDeclarator (ArrayPattern (Some (Identifier v) # Some (Identifier w) # rest))
                 (Some (CallExpression callee args)))
            = [\<lparr>stateVar = v, setter = w\<rparr>]"
    by (auto simp: declaredState_def statePair_def isHook_def)
next
  fix nd
  assume no: "\<not> (\<exists>v w rest callee args.
                 nd = VariableDeclarator
                        (ArrayPattern (Some (Identifier v) # Some (Identifier w) # rest))
                        (Some (CallExpression callee args))
                 \<and> (callee = Identifier ''useState''
                      \<or> callee = MemberExpression (Identifier ''React'') (Identifier ''useState'')))"
  show "declaredState nd = []"
  proof (rule ccontr)
    assume ne: "declaredState nd \<noteq> []"
    then obtain i init where nd: "nd = VariableDeclarator i init"
      by (cases nd) (simp_all add: declaredState_def)
    with ne have "statePair i init \<noteq> []" by (simp add: declaredState_def)
    from statePair_nonempty [OF this] nd no show False
      by (auto simp: isHook_def)
  qed
qed

text \<open>
  Witness for C3: the file \<open>todosAst\<close>, a declarator of the recognised shape, and one
  with a single element.
\<close>

theorem C3_state_pairs_witness:
  "pass2 ''Todos'' todosAst = Inr todosResult
   \<and> states todosResult =
       concat (map (\<lambda>p. declaredState (snd p))
         (filter (\<lambda>p. isInsideComponent (fst p) ''Todos'') (traverse todosAst)))
   \<and> states todosResult = [\<lparr>stateVar = ''input'', setter = ''setInput''\<rparr>]
   \<and> declaredState
        (VariableDeclarator (ArrayPattern [Some (Identifier ''input''), Some (Identifier ''setInput'')])
           (Some (CallExpression (Identifier ''useState'') [StringLiteral ''''])))
      = [\<lparr>stateVar = ''input'', setter = ''setInput''\<rparr>]
   \<and> declaredState
        (VariableDeclarator (ArrayPattern [Some (Identifier ''only'')])
           (Some (CallExpression (Identifier ''useState'') [])))
      = []"
proof -
  note c3 = C3_state_pairs [OF pass2_todosAst]
  have a: "states todosResult =
       concat (map (\<lambda>p. declaredState (snd p))
         (filter (\<lambda>p. isInsideComponent (fst p) ''Todos'') (traverse todosAst)))"
    using c3 by blast
  have b: "declaredState
        (VariableDeclarator (ArrayPattern [Some (Identifier ''input''), Some (Identifier ''setInput'')])
           (Some (CallExpression (Identifier ''useState'') [StringLiteral ''''])))
      = [\<lparr>stateVar = ''input'', setter = ''setInput''\<rparr>]"
    using c3 by blast
  have c: "declaredState
        (VariableDeclarator (ArrayPattern [Some (Identifier ''only'')])
           (Some (CallExpression (Identifier ''useState'') [])))
      = []"
  proof -
    have "\<not> (\<exists>v w rest callee args.
             VariableDeclarator (ArrayPattern [Some (Identifier ''only'')])
               (Some (CallExpression (Identifier ''useState'') []))
             = VariableDeclarator
                        (ArrayPattern (Some (Identifier v) # Some (Identifier w) # rest))
                        (Some (CallExpression callee args))
                 \<and> (callee = Identifier ''useState''
                      \<or> callee = MemberExpression (Identifier ''React'') (Identifier ''useState'')))"
      by simp
    with c3 show ?thesis by blast
  qed
  have d: "states todosResult = [\<lparr>stateVar = ''input'', setter = ''setInput''\<rparr>]"
    by (simp add: todosResult_def)
  from pass2_todosAst a b c d show ?thesis by blast
qed

text \<open>
  Counterexample to C3 as stated (a pattern of any other arity gives no pair): in
  \<open>threeAst\<close> the declaration \<open>const [a, b, c] = useState(0)\<close> has three elements and the
  result holds the pair of its first two.
\<close>

theorem C3_three_element_pattern:
  "pass1 threeAst = ''Counter''
   \<and> pass2 ''Counter'' threeAst = Inr threeResult
   \<and> states threeResult = [\<lparr>stateVar = ''a'', setter = ''b''\<rparr>]
   \<and> declaredState
        (VariableDeclarator
           (ArrayPattern [Some (Identifier ''a''), Some (Identifier ''b''), Some (Identifier ''c'')])
           (Some (CallExpression (Identifier ''useState'') [NumericLiteral ''0''])))
      = [\<lparr>stateVar = ''a'', setter = ''b''\<rparr>]"
proof -
  have "pass1 threeAst = ''Counter''" by code_simp
  moreover have "states threeResult = [\<lparr>stateVar = ''a'', setter = ''b''\<rparr>]"
    by (simp add: threeResult_def)
  moreover have "declaredState
        (VariableDeclarator
           (ArrayPattern [Some (Identifier ''a''), Some (Identifier ''b''), Some (Identifier ''c'')])
           (Some (CallExpression (Identifier ''useState'') [NumericLiteral ''0''])))
      = [\<lparr>stateVar = ''a'', setter = ''b''\<rparr>]"
    by code_simp
  ultimately show ?thesis using pass2_threeAst by blast
qed

subsection \<open>C4: network calls\<close>

lemma scan_apis_concat:
  "apis (foldl visitApiCall (initial []) ps)
     = concat (map (\<lambda>p. apis (visitApiCall (initial []) p)) ps)"
proof (induction ps)
  case Nil
  show ?case by (simp add: initial_def)
next
  case (Cons p ps)
  have "apis (foldl visitApiCall (initial []) (p # ps))
          = apis (visitApiCall (initial []) p) @ apis (foldl visitApiCall (initial []) ps)"
    using scan_apis [of "visitApiCall (initial []) p" ps] by simp
  with Cons.IH show ?case by simp
qed

lemma visitApiCall_record:
  assumes "a \<in> set (apis (visitApiCall (initial []) p))"
  shows "\<exists>callee args. snd p = CallExpression callee args
           \<and> (callee = Identifier ''fetch''
                 \<and> a = \<lparr>apitype = Fetch, method' = None, url = urlOf args\<rparr>
               \<or> (\<exists>m. callee = MemberExpression (Identifier ''axios'') (Identifier m)
                      \<and> a = \<lparr>apitype = Axios, method' = Some m, url = urlOf args\<rparr>))"
proof -
  from assms obtain callee args where p: "snd p = CallExpression callee args"
    by (cases "snd p") (simp_all add: visitApiCall_def initial_def)
  show ?thesis
  proof (cases "callee = Identifier ''fetch''")
    case True
    with assms p have "a = \<lparr>apitype = Fetch, method' = None, url = urlOf args\<rparr>"
      by (simp add: visitApiCall_def initial_def)
    with p True show ?thesis by blast
  next
    case False
    with assms p obtain ob pr where callee: "callee = MemberExpression ob pr"
      by (cases callee) (simp_all add: visitApiCall_def initial_def)
    from assms p False callee obtain x where ob: "ob = Identifier x"
      by (cases ob) (simp_all add: visitApiCall_def initial_def)
    from assms p False callee ob obtain m where pr: "pr = Identifier m"
      by (cases pr) (simp_all add: visitApiCall_def initial_def)
    from assms p False callee ob pr
    have "x = ''axios'' \<and> a = \<lparr>apitype = Axios, method' = Some m, url = urlOf args\<rparr>"
      by (simp add: visitApiCall_def initial_def split: if_splits)
    with p callee ob pr show ?thesis by blast
  qed
qed

lemma scanBody_record:
  assumes "a \<in> set (scanBody statements)"
  shows "\<exists>p \<in> set (traverse (File (Program statements))). \<exists>callee args.
           snd p = CallExpression callee args
           \<and> (callee = Identifier ''fetch''
                 \<and> a = \<lparr>apitype = Fetch, method' = None, url = urlOf args\<rparr>
               \<or> (\<exists>m. callee = MemberExpression (Identifier ''axios'') (Identifier m)
                      \<and> a = \<lparr>apitype = Axios, method' = Some m, url = urlOf args\<rparr>))"
proof -
  from assms obtain p where p: "p \<in> set (traverse (File (Program statements)))"
    and a: "a \<in> set (apis (visitApiCall (initial []) p))"
    unfolding scanBody_def scan_apis_concat by auto
  from visitApiCall_record [OF a] p show ?thesis by blast
qed

text \<open>
  Claim C4. The network calls of the result are the calls the inner traversal finds in the
  statements of the callbacks of the effect registrations that pass the scope test, body by
  body in traversal order, and nothing else: every entry of \<open>apis\<close> is the record of a
  call of \<open>fetch\<close> or of \<open>axios.m\<close> that is a node of such a body. \<open>usesFetch\<close> and
  \<open>usesAxios\<close> say whether \<open>apis\<close> has an entry of that kind. So a file without such a
  callback has no network calls in its result, whatever calls it makes elsewhere.
\<close>

theorem C4_network_calls_from_effect_bodies_only:
  assumes "pass2 cn ast = Inr r"
  shows "apis r = concat (map scanBody (effectBodies cn ast))
       \<and> (\<forall>a \<in> set (apis r).
            \<exists>statements \<in> set (effectBodies cn ast).
            \<exists>p \<in> set (traverse (File (Program statements))).
            \<exists>callee args.
              snd p = CallExpression callee args
              \<and> (callee = Identifier ''fetch''
                    \<and> a = \<lparr>apitype = Fetch, method' = None, url = urlOf args\<rparr>
                  \<or> (\<exists>m. callee = MemberExpression (Identifier ''axios'') (Identifier m)
                         \<and> a = \<lparr>apitype = Axios, method' = Some m, url = urlOf args\<rparr>)))
       \<and> usesFetch r = (\<exists>a \<in> set (apis r). apitype a = Fetch)
       \<and> usesAxios r = (\<exists>a \<in> set (apis r). apitype a = Axios)
       \<and> (effectBodies cn ast = [] \<longrightarrow> apis r = [] \<and> \<not> usesFetch r \<and> \<not> usesAxios r)"
proof -
  have a: "apis r = concat (map scanBody (effectBodies cn ast))"
    using assms by (rule pass2_apis)
  have f: "usesFetch r = (\<exists>a \<in> set (apis r). apitype a = Fetch)"
    using assms by (rule pass2_usesFetch)
  have x: "usesAxios r = (\<exists>a \<in> set (apis r). apitype a = Axios)"
    using assms by (rule pass2_usesAxios)
  have o: "\<forall>a \<in> set (apis r).
            \<exists>statements \<in> set (effectBodies cn ast).
            \<exists>p \<in> set (traverse (File (Program statements))).
            \<exists>callee args.
              snd p = CallExpression callee args
              \<and> (callee = Identifier ''fetch''
                    \<and> a = \<lparr>apitype = Fetch, method' = None, url = urlOf args\<rparr>
                  \<or> (\<exists>m. callee = MemberExpression (Identifier ''axios'') (Identifier m)
                         \<and> a = \<lparr>apitype = Axios, method' = Some m, url = urlOf args\<rparr>))"
  proof
    fix c
    assume "c \<in> set (apis r)"
    with a obtain statements where st: "statements \<in> set (effectBodies cn ast)"
      and c: "c \<in> set (scanBody statements)" by auto
    from scanBody_record [OF c] st
    show "\<exists>statements \<in> set (effectBodies cn ast).
            \<exists>p \<in> set (traverse (File (Program statements))).
            \<exists>callee args.
              snd p = CallExpression callee args
              \<and> (callee = Identifier ''fetch''
                    \<and> c = \<lparr>apitype = Fetch, method' = None, url = urlOf args\<rparr>
                  \<or> (\<exists>m. callee = MemberExpression (Identifier ''axios'') (Identifier m)
                         \<and> c = \<lparr>apitype = Axios, method' = Some m, url = urlOf args\<rparr>))"
      by blast
  qed
  have e: "apis r = [] \<and> \<not> usesFetch r \<and> \<not> usesAxios r" if "effectBodies cn ast = []"
  proof -
    from that a have "apis r = []" by simp
    with f x show ?thesis by simp
  qed
  from a o f x e show ?thesis by blast
qed

text \<open>
  Witness for C4: \<open>todosAst\<close> calls \<open>fetch\<close> in an effect callback and \<open>axios.post\<close> in a
  handler, and only the former is recorded; \<open>listAst\<close> registers no effect.
\<close>

theorem C4_network_calls_witness:
  "pass2 ''Todos'' todosAst = Inr todosResult
   \<and> apis todosResult = concat (map scanBody (effectBodies ''Todos'' todosAst))
   \<and> apis todosResult
        = [\<lparr>apitype = Fetch, method' = None, url = ''https://api.example.com/x''\<rparr>]
   \<and> usesFetch todosResult \<and> \<not> usesAxios todosResult
   \<and> (\<exists>statements \<in> set (effectBodies ''Todos'' todosAst).
       \<exists>p \<in> set (traverse (File (Program statements))).
       \<exists>callee args.
         snd p = CallExpression callee args
         \<and> (callee = Identifier ''fetch''
               \<and> \<lparr>apitype = Fetch, method' = None, url = ''https://api.example.com/x''\<rparr>
                   = \<lparr>apitype = Fetch, method' = None, url = urlOf args\<rparr>
             \<or> (\<exists>m. callee = MemberExpression (Identifier ''axios'') (Identifier m)
                    \<and> \<lparr>apitype = Fetch, method' = None, url = ''https://api.example.com/x''\<rparr>
                        = \<lparr>apitype = Axios, method' = Some m, url = urlOf args\<rparr>)))
   \<and> pass2 ''Users'' listAst = Inr listResult
   \<and> effectBodies ''Users'' listAst = []
   \<and> apis listResult = [] \<and> \<not> usesFetch listResult \<and> \<not> usesAxios listResult"
proof -
  note todos = C4_network_calls_from_effect_bodies_only [OF pass2_todosAst]
  note users = C4_network_calls_from_effect_bodies_only [OF pass2_listAst]
  have t1: "apis todosResult = concat (map scanBody (effectBodies ''Todos'' todosAst))"
    using todos by blast
  have t2: "apis todosResult
        = [\<lparr>apitype = Fetch, method' = None, url = ''https://api.example.com/x''\<rparr>]"
    by (simp add: todosResult_def)
  have t3: "usesFetch todosResult"
    using todos unfolding t2 by simp
  have t4: "\<not> usesAxios todosResult"
    using todos unfolding t2 by simp
  have "\<lparr>apitype = Fetch, method' = None, url = ''https://api.example.com/x''\<rparr>
          \<in> set (apis todosResult)"
    unfolding t2 by simp
  with todos have t5: "\<exists>statements \<in> set (effectBodies ''Todos'' todosAst).
       \<exists>p \<in> set (traverse (File (Program statements))).
       \<exists>callee args.
         snd p = CallExpression callee args
         \<and> (callee = Identifier ''fetch''
               \<and> \<lparr>apitype = Fetch, method' = None, url = ''https://api.example.com/x''\<rparr>
                   = \<lparr>apitype = Fetch, method' = None, url = urlOf args\<rparr>
             \<or> (\<exists>m. callee = MemberExpression (Identifier ''axios'') (Identifier m)
                    \<and> \<lparr>apitype = Fetch, method' = None, url = ''https://api.example.com/x''\<rparr>
                        = \<lparr>apitype = Axios, method' = Some m, url = urlOf args\<rparr>))"
    by blast
  have u1: "effectBodies ''Users'' listAst = []" by code_simp
  have u2: "apis listResult = [] \<and> \<not> usesFetch listResult \<and> \<not> usesAxios listResult"
    using users u1 by blast
  from pass2_todosAst pass2_listAst t1 t2 t3 t4 t5 u1 u2 show ?thesis by blast
qed

subsection \<open>C5: the component locator\<close>

lemma unwrapDefaultExport_Some:
  assumes "unwrapDefaultExport decl = Some x" and "x \<noteq> []"
  shows "(\<exists>ps b. decl = FunctionDeclaration (Some (Identifier x)) ps b)
       \<or> decl = Identifier x
       \<or> (\<exists>callee rest. decl = CallExpression callee (Identifier x # rest))"
proof (cases decl)
  case (FunctionDeclaration i ps b)
  with assms show ?thesis
    by (auto simp: unwrapDefaultExport_def split: option.splits node.splits if_splits)
next
  case (Identifier y)
  with assms show ?thesis by (simp add: unwrapDefaultExport_def)
next
  case (CallExpression callee args)
  with assms show ?thesis
    by (auto simp: unwrapDefaultExport_def split: list.splits node.splits)
qed (use assms in \<open>simp_all add: unwrapDefaultExport_def\<close>)

lemma pass1_single:
  assumes "defaultExports ast = [decl]"
  shows "pass1 ast = (case unwrapDefaultExport decl of
                        Some x \<Rightarrow> if x \<noteq> [] then x else ''Anonymous''
                      | None \<Rightarrow> ''Anonymous'')"
  by (simp add: pass1_defaultExports assms)

text \<open>
  Claim C5. When the file has one default export, the locator resolves the name from its
  declaration: a function declaration with a name gives that name; an identifier gives its
  name; a call whose first argument is an identifier gives the name of that argument; any
  other declaration gives \<open>Anonymous\<close>. The shapes exclude each other, so each rule
  applies only where the ones before it do not. The locator is a total function of the
  tree, which it does not change, and the name it gives is the name of the result.
\<close>

theorem C5_locator_precedence:
  assumes "defaultExports ast = [decl]"
  shows "(\<forall>x ps b. decl = FunctionDeclaration (Some (Identifier x)) ps b \<and> x \<noteq> [] \<longrightarrow>
            pass1 ast = x)
       \<and> (\<forall>x. decl = Identifier x \<and> x \<noteq> [] \<longrightarrow> pass1 ast = x)
       \<and> (\<forall>callee x rest. decl = CallExpression callee (Identifier x # rest) \<and> x \<noteq> [] \<longrightarrow>
            pass1 ast = x)
       \<and> (\<not> (\<exists>x ps b. decl = FunctionDeclaration (Some (Identifier x)) ps b \<and> x \<noteq> [])
            \<and> \<not> (\<exists>x. decl = Identifier x \<and> x \<noteq> [])
            \<and> \<not> (\<exists>callee x rest. decl = CallExpression callee (Identifier x # rest) \<and> x \<noteq> []) \<longrightarrow>
            pass1 ast = ''Anonymous'')
       \<and> (\<forall>r. pass2 (pass1 ast) ast = Inr r \<longrightarrow> name r = pass1 ast)"
proof (intro conjI allI impI)
  fix x ps b
  assume "decl = FunctionDeclaration (Some (Identifier x)) ps b \<and> x \<noteq> []"
  then show "pass1 ast = x"
    by (simp add: pass1_single [OF assms] unwrapDefaultExport_def)
next
  fix x
  assume "decl = Identifier x \<and> x \<noteq> []"
  then show "pass1 ast = x"
    by (simp add: pass1_single [OF assms] unwrapDefaultExport_def)
next
  fix callee x rest
  assume "decl = CallExpression callee (Identifier x # rest) \<and> x \<noteq> []"
  then show "pass1 ast = x"
    by (simp add: pass1_single [OF assms] unwrapDefaultExport_def)
next
  assume none: "\<not> (\<exists>x ps b. decl = FunctionDeclaration (Some (Identifier x)) ps b \<and> x \<noteq> [])
            \<and> \<not> (\<exists>x. decl = Identifier x \<and> x \<noteq> [])
            \<and> \<not> (\<exists>callee x rest. decl = CallExpression callee (Identifier x # rest) \<and> x \<noteq> [])"
  show "pass1 ast = ''Anonymous''"
  proof (cases "unwrapDefaultExport decl")
    case None
    then show ?thesis by (simp add: pass1_single [OF assms])
  next
    case (Some x)
    have "x = []"
    proof (rule ccontr)
      assume "x \<noteq> []"
      from unwrapDefaultExport_Some [OF Some this] none \<open>x \<noteq> []\<close> show False by blast
    qed
    with Some show ?thesis by (simp add: pass1_single [OF assms])
  qed
next
  fix r
  assume "pass2 (pass1 ast) ast = Inr r"
  then show "name r = pass1 ast" by (rule pass2_name)
qed

text \<open>
  Witness for C5: one file for each of the four rules.
\<close>

theorem C5_locator_precedence_witness:
  "defaultExports listAst = [usersDeclaration] \<and> pass1 listAst = ''Users''
   \<and> defaultExports todosAst = [Identifier ''Todos''] \<and> pass1 todosAst = ''Todos''
   \<and> defaultExports memoAst = [CallExpression (Identifier ''memo'') [Identifier ''Users'']]
   \<and> pass1 memoAst = ''Users''
   \<and> defaultExports arrowAst = [arrowDeclaration] \<and> pass1 arrowAst = ''Anonymous''
   \<and> pass2 (pass1 todosAst) todosAst = Inr todosResult \<and> name todosResult = pass1 todosAst"
proof -
  have e1: "defaultExports listAst = [usersDeclaration]" by code_simp
  have e2: "defaultExports todosAst = [Identifier ''Todos'']" by code_simp
  have e3: "defaultExports memoAst = [CallExpression (Identifier ''memo'') [Identifier ''Users'']]"
    by code_simp
  have e4: "defaultExports arrowAst = [arrowDeclaration]" by code_simp
  have "usersDeclaration = FunctionDeclaration (Some (Identifier ''Users''))
       [ObjectPattern [ObjectProperty (Identifier ''items'') (Identifier ''items'')]]
       (BlockStatement
          [Other ''ReturnStatement''
             [JSXElement (JSXOpeningElement (JSXIdentifier ''ul'') [])
                [JSXExpressionContainer (CallExpression
                   (MemberExpression (Identifier ''items'') (Identifier ''map''))
                   [ArrowFunctionExpression [Identifier ''i''] listItem])]
                (Some (Other ''JSXClosingElement'' [JSXIdentifier ''ul'']))]])
       \<and> ''Users'' \<noteq> []"
    by (simp add: usersDeclaration_def)
  with C5_locator_precedence [OF e1] have p1: "pass1 listAst = ''Users''" by blast
  have "Identifier ''Todos'' = Identifier ''Todos'' \<and> ''Todos'' \<noteq> []" by simp
  with C5_locator_precedence [OF e2] have p2: "pass1 todosAst = ''Todos''" by blast
  have "CallExpression (Identifier ''memo'') [Identifier ''Users'']
          = CallExpression (Identifier ''memo'') (Identifier ''Users'' # []) \<and> ''Users'' \<noteq> []"
    by simp
  with C5_locator_precedence [OF e3] have p3: "pass1 memoAst = ''Users''" by blast
  have "\<not> (\<exists>x ps b. arrowDeclaration = FunctionDeclaration (Some (Identifier x)) ps b \<and> x \<noteq> [])
            \<and> \<not> (\<exists>x. arrowDeclaration = Identifier x \<and> x \<noteq> [])
            \<and> \<not> (\<exists>callee x rest. arrowDeclaration = CallExpression callee (Identifier x # rest)
                    \<and> x \<noteq> [])"
    by (simp add: arrowDeclaration_def)
  with C5_locator_precedence [OF e4] have p4: "pass1 arrowAst = ''Anonymous''" by blast
  have run: "pass2 (pass1 todosAst) todosAst = Inr todosResult"
    unfolding p2 by (rule pass2_todosAst)
  with C5_locator_precedence [OF e2] have p5: "name todosResult = pass1 todosAst" by blast
  from e1 e2 e3 e4 p1 p2 p3 p4 run p5 show ?thesis by blast
qed

subsection \<open>C6: effect dependencies\<close>

text \<open>
  What the extractor records: the effect dependencies of the result are the dependencies
  of the effect registrations that pass its scope test, in traversal order, and \<open>effects\<close>
  says whether there is such a registration. The dependencies of a registration whose
  second argument is a literal array are the names of the elements of the array that are
  identifiers, in order; a registration with any other or no second argument has none.
\<close>

lemma dependencies_of_registrations_passing_scope_test:
  assumes "pass2 cn ast = Inr r"
  shows "effectDeps r = concat (map depNames (effectRegistrations cn ast))
       \<and> effects r = (effectRegistrations cn ast \<noteq> [])
       \<and> (\<forall>callback els rest.
            depNames (callback # ArrayExpression els # rest)
            = concat (map (\<lambda>el. case el of Some (Identifier x) \<Rightarrow> [x] | _ \<Rightarrow> []) els))
       \<and> (\<forall>args. \<not> (\<exists>callback els rest. args = callback # ArrayExpression els # rest) \<longrightarrow>
            depNames args = [])"
proof (intro conjI allI impI)
  show "effectDeps r = concat (map depNames (effectRegistrations cn ast))"
    using assms by (rule pass2_effectDeps)
  show "effects r = (effectRegistrations cn ast \<noteq> [])"
    using assms by (rule pass2_effects)
next
  fix callback els rest
  show "depNames (callback # ArrayExpression els # rest)
            = concat (map (\<lambda>el. case el of Some (Identifier x) \<Rightarrow> [x] | _ \<Rightarrow> []) els)"
    by (simp add: depNames_def)
next
  fix args
  assume no: "\<not> (\<exists>callback els rest. args = callback # ArrayExpression els # rest)"
  show "depNames args = []"
  proof (cases args)
    case Nil
    then show ?thesis by (simp add: depNames_def)
  next
    case (Cons a0 tl0)
    show ?thesis
    proof (cases tl0)
      case Nil
      with Cons show ?thesis by (simp add: depNames_def)
    next
      case (Cons a1 rest)
      with \<open>args = a0 # tl0\<close> no have "\<not> (\<exists>els. a1 = ArrayExpression els)" by simp
      with Cons \<open>args = a0 # tl0\<close> show ?thesis
        by (cases a1) (simp_all add: depNames_def)
    qed
  qed
qed

text \<open>
  Claim C6 (every effect registration in scope whose second argument is a literal array
  adds the identifiers of that array to the effect dependencies and sets \<open>effects\<close>). In
  the file \<open>boundEffectAst\<close> the registration \<open>boundEffect\<close>, with the dependency array
  \<open>[id]\<close>, lies inside the arrow function bound to the component \<open>Users\<close>, as the
  initializer of \<open>const stop\<close>. The nearest variable declarator around it is \<open>stop\<close>,
  not \<open>Users\<close>, so it is lexically inside the component and fails the scope test:
  the result has \<open>effects\<close> false and no effect dependency.
\<close>

theorem C6_bound_registration_dropped:
  "pass1 boundEffectAst = ''Users''
   \<and> pass2 ''Users'' boundEffectAst = Inr boundEffectResult
   \<and> effects boundEffectResult = False
   \<and> effectDeps boundEffectResult = []
   \<and> boundEffect
       = CallExpression (Identifier ''useEffect'')
           [ArrowFunctionExpression [] (BlockStatement
              [ExpressionStatement
                 (CallExpression (Identifier ''fetch'') [StringLiteral ''/users''])]),
            ArrayExpression [Some (Identifier ''id'')]]
   \<and> list_ex (\<lambda>p. snd p = boundEffect \<and> lexicallyInside (fst p) ''Users''
                    \<and> \<not> isInsideComponent (fst p) ''Users'') (traverse boundEffectAst)"
proof -
  have "pass1 boundEffectAst = ''Users''" by code_simp
  moreover have "pass2 ''Users'' boundEffectAst = Inr boundEffectResult" by code_simp
  moreover have "effects boundEffectResult = False" "effectDeps boundEffectResult = []"
    by (simp_all add: boundEffectResult_def)
  moreover have "list_ex (\<lambda>p. snd p = boundEffect \<and> lexicallyInside (fst p) ''Users''
                    \<and> \<not> isInsideComponent (fst p) ''Users'') (traverse boundEffectAst)"
    by code_simp
  ultimately show ?thesis by (simp add: boundEffect_def)
qed

subsection \<open>C7: role hints\<close>

lemma toLowerCase_Nil_iff: "toLowerCase s = [] \<longleftrightarrow> s = []"
  by (simp add: toLowerCase_def)

lemma guessRole_range:
  "guessRole nm obj \<in> {None, Some ''button'', Some ''textbox'', Some ''link'', Some ''img''}"
  by (simp add: guessRole_def Let_def)

lemma guessRole_button:
  assumes "guessRole nm obj = Some ''button''"
  shows "toLowerCase nm = ''button'' \<or> getProp obj ''role'' = Some (PStr ''button'')"
  using assms by (simp add: guessRole_def Let_def split: if_splits)

lemma guessRole_link:
  assumes "guessRole nm obj = Some ''link''"
  shows "toLowerCase nm = ''a'' \<or> getProp obj ''role'' = Some (PStr ''link'')"
  using assms by (simp add: guessRole_def Let_def split: if_splits)

lemma guessRole_img:
  assumes "guessRole nm obj = Some ''img''"
  shows "toLowerCase nm = ''img'' \<or> getProp obj ''role'' = Some (PStr ''img'')"
  using assms by (simp add: guessRole_def Let_def split: if_splits)

lemma guessRole_textbox:
  assumes "guessRole nm obj = Some ''textbox''"
  shows "(toLowerCase nm = ''input'' \<or> getProp obj ''role'' = Some (PStr ''textbox''))
       \<and> (getProp obj ''type'' = None
            \<or> (\<exists>t. getProp obj ''type'' = Some (PStr t) \<and> (t = [] \<or> toLowerCase t = ''text'')))"
proof -
  from assms have tag: "toLowerCase nm = ''input'' \<or> getProp obj ''role'' = Some (PStr ''textbox'')"
    and ty: "toLowerCase (stringOfProp (getProp obj ''type'')) = []
              \<or> toLowerCase (stringOfProp (getProp obj ''type'')) = ''text''"
    by (simp_all add: guessRole_def Let_def split: if_splits)
  have bools: "toLowerCase ''true'' = ''true''" "toLowerCase ''false'' = ''false''"
    by code_simp+
  have "getProp obj ''type'' = None
            \<or> (\<exists>t. getProp obj ''type'' = Some (PStr t) \<and> (t = [] \<or> toLowerCase t = ''text''))"
  proof (cases "getProp obj ''type''")
    case None
    then show ?thesis by simp
  next
    case (Some v)
    show ?thesis
    proof (cases v)
      case (PStr t)
      with Some ty show ?thesis by (simp add: toLowerCase_Nil_iff)
    next
      case (PBool b)
      with Some ty bools show ?thesis by (cases b) simp_all
    qed
  qed
  with tag show ?thesis by blast
qed

lemma elementInfo_roleHint:
  "roleHint (elementInfo nd) = guessRole (type (elementInfo nd)) (props (elementInfo nd))"
proof -
  have unknown: "guessRole ''Unknown'' [] = None" by code_simp
  show ?thesis
  proof (cases nd)
    case (JSXElement ope cs clo)
    then show ?thesis
      by (cases ope) (simp_all add: elementInfo_def unknown split: prod.splits)
  qed (simp_all add: elementInfo_def unknown)
qed

text \<open>
  Claim C7, as amended. For every element record of the result, \<open>roleHint\<close> is the value
  \<open>guessRole\<close> derives from the tag name and the properties; it is absent or one of
  \<open>button\<close>, \<open>textbox\<close>, \<open>link\<close>, \<open>img\<close>; each value is given only when the lower-cased
  tag name or the \<open>role\<close> property asks for it; and \<open>textbox\<close> is given only when the
  \<open>type\<close> property is absent or is a string that is empty or, in lower case, \<open>text\<close>.
\<close>

theorem C7_role_hints:
  assumes "pass2 cn ast = Inr r"
  shows "\<forall>e \<in> set (elements r).
           roleHint e = guessRole (type e) (props e)
         \<and> roleHint e \<in> {None, Some ''button'', Some ''textbox'', Some ''link'', Some ''img''}
         \<and> (roleHint e = Some ''button'' \<longrightarrow>
              toLowerCase (type e) = ''button'' \<or> getProp (props e) ''role'' = Some (PStr ''button''))
         \<and> (roleHint e = Some ''textbox'' \<longrightarrow>
              (toLowerCase (type e) = ''input'' \<or> getProp (props e) ''role'' = Some (PStr ''textbox''))
              \<and> (getProp (props e) ''type'' = None
                   \<or> (\<exists>t. getProp (props e) ''type'' = Some (PStr t)
                          \<and> (t = [] \<or> toLowerCase t = ''text''))))
         \<and> (roleHint e = Some ''link'' \<longrightarrow>
              toLowerCase (type e) = ''a'' \<or> getProp (props e) ''role'' = Some (PStr ''link''))
         \<and> (roleHint e = Some ''img'' \<longrightarrow>
              toLowerCase (type e) = ''img'' \<or> getProp (props e) ''role'' = Some (PStr ''img''))"
proof
  fix e
  assume "e \<in> set (elements r)"
  then obtain p where "e = elementInfo (snd p)"
    unfolding pass2_elements [OF assms] by auto
  then have hint: "roleHint e = guessRole (type e) (props e)"
    by (simp add: elementInfo_roleHint)
  show "roleHint e = guessRole (type e) (props e)
         \<and> roleHint e \<in> {None, Some ''button'', Some ''textbox'', Some ''link'', Some ''img''}
         \<and> (roleHint e = Some ''button'' \<longrightarrow>
              toLowerCase (type e) = ''button'' \<or> getProp (props e) ''role'' = Some (PStr ''button''))
         \<and> (roleHint e = Some ''textbox'' \<longrightarrow>
              (toLowerCase (type e) = ''input'' \<or> getProp (props e) ''role'' = Some (PStr ''textbox''))
              \<and> (getProp (props e) ''type'' = None
                   \<or> (\<exists>t. getProp (props e) ''type'' = Some (PStr t)
                          \<and> (t = [] \<or> toLowerCase t = ''text''))))
         \<and> (roleHint e = Some ''link'' \<longrightarrow>
              toLowerCase (type e) = ''a'' \<or> getProp (props e) ''role'' = Some (PStr ''link''))
         \<and> (roleHint e = Some ''img'' \<longrightarrow>
              toLowerCase (type e) = ''img'' \<or> getProp (props e) ''role'' = Some (PStr ''img''))"
    unfolding hint
    using guessRole_range [of "type e" "props e"] guessRole_button [of "type e" "props e"]
      guessRole_textbox [of "type e" "props e"] guessRole_link [of "type e" "props e"]
      guessRole_img [of "type e" "props e"]
    by blast
qed


text \<open>
  Witness for C7: the elements \<open>img\<close>, \<open>input\<close> and \<open>a\<close> of \<open>pictureAst\<close> and the
  element \<open>button\<close> of \<open>todosAst\<close>.
\<close>

theorem C7_role_hints_witness:
  "pass2 ''Picture'' pictureAst = Inr pictureResult
   \<and> elements pictureResult ! 1 \<in> set (elements pictureResult)
   \<and> elements pictureResult ! 2 \<in> set (elements pictureResult)
   \<and> elements pictureResult ! 3 \<in> set (elements pictureResult)
   \<and> roleHint (elements pictureResult ! 1) = Some ''img''
   \<and> (toLowerCase (type (elements pictureResult ! 1)) = ''img''
        \<or> getProp (props (elements pictureResult ! 1)) ''role'' = Some (PStr ''img''))
   \<and> roleHint (elements pictureResult ! 2) = Some ''textbox''
   \<and> (toLowerCase (type (elements pictureResult ! 2)) = ''input''
        \<or> getProp (props (elements pictureResult ! 2)) ''role'' = Some (PStr ''textbox''))
   \<and> (getProp (props (elements pictureResult ! 2)) ''type'' = None
        \<or> (\<exists>t. getProp (props (elements pictureResult ! 2)) ''type'' = Some (PStr t)
               \<and> (t = [] \<or> toLowerCase t = ''text'')))
   \<and> roleHint (elements pictureResult ! 3) = Some ''link''
   \<and> (toLowerCase (type (elements pictureResult ! 3)) = ''a''
        \<or> getProp (props (elements pictureResult ! 3)) ''role'' = Some (PStr ''link''))
   \<and> pass2 ''Todos'' todosAst = Inr todosResult
   \<and> elements todosResult ! 1 \<in> set (elements todosResult)
   \<and> roleHint (elements todosResult ! 1) = Some ''button''
   \<and> (toLowerCase (type (elements todosResult ! 1)) = ''button''
        \<or> getProp (props (elements todosResult ! 1)) ''role'' = Some (PStr ''button''))"
proof -
  note picture = C7_role_hints [OF pass2_pictureAst, rule_format]
  note todos = C7_role_hints [OF pass2_todosAst, rule_format]
  have m1: "elements pictureResult ! 1 \<in> set (elements pictureResult)"
    and m2: "elements pictureResult ! 2 \<in> set (elements pictureResult)"
    and m3: "elements pictureResult ! 3 \<in> set (elements pictureResult)"
    by (simp_all add: pictureResult_def)
  have m4: "elements todosResult ! 1 \<in> set (elements todosResult)"
    by (simp add: todosResult_def)
  have r1: "roleHint (elements pictureResult ! 1) = Some ''img''"
    and r2: "roleHint (elements pictureResult ! 2) = Some ''textbox''"
    and r3: "roleHint (elements pictureResult ! 3) = Some ''link''"
    by (simp_all add: pictureResult_def)
  have r4: "roleHint (elements todosResult ! 1) = Some ''button''"
    by (simp add: todosResult_def)
  from picture [OF m1] r1
  have c1: "toLowerCase (type (elements pictureResult ! 1)) = ''img''
        \<or> getProp (props (elements pictureResult ! 1)) ''role'' = Some (PStr ''img'')"
    by blast
  from picture [OF m2] r2
  have c2: "(toLowerCase (type (elements pictureResult ! 2)) = ''input''
        \<or> getProp (props (elements pictureResult ! 2)) ''role'' = Some (PStr ''textbox''))
   \<and> (getProp (props (elements pictureResult ! 2)) ''type'' = None
        \<or> (\<exists>t. getProp (props (elements pictureResult ! 2)) ''type'' = Some (PStr t)
               \<and> (t = [] \<or> toLowerCase t = ''text'')))"
    by blast
  from picture [OF m3] r3
  have c3: "toLowerCase (type (elements pictureResult ! 3)) = ''a''
        \<or> getProp (props (elements pictureResult ! 3)) ''role'' = Some (PStr ''link'')"
    by blast
  from todos [OF m4] r4
  have c4: "toLowerCase (type (elements todosResult ! 1)) = ''button''
        \<or> getProp (props (elements todosResult ! 1)) ''role'' = Some (PStr ''button'')"
    by blast
  from pass2_pictureAst pass2_todosAst m1 m2 m3 m4 r1 r2 r3 r4 c1 c2 c3 c4 show ?thesis
    by blast
qed

text \<open>
  Counterexample to C7 as stated (the values are \<open>button\<close>, \<open>textbox\<close>, \<open>link\<close>, \<open>image\<close>;
  \<open>textbox\<close> only without a \<open>type\<close> or with \<open>type\<close> equal to \<open>text\<close>): in \<open>pictureAst\<close>
  the element \<open>img\<close> gets the role \<open>img\<close>, and the element \<open>input\<close> with
  \<open>type="TEXT"\<close> gets the role \<open>textbox\<close>.
\<close>

theorem C7_img_and_upper_case_type:
  "pass1 pictureAst = ''Picture''
   \<and> pass2 ''Picture'' pictureAst = Inr pictureResult
   \<and> map roleHint (elements pictureResult) = [None, Some ''img'', Some ''textbox'', Some ''link'']
   \<and> map (\<lambda>e. getProp (props e) ''type'') (elements pictureResult)
        = [None, None, Some (PStr ''TEXT''), None]"
proof -
  have "pass1 pictureAst = ''Picture''" by code_simp
  moreover have "map roleHint (elements pictureResult)
                   = [None, Some ''img'', Some ''textbox'', Some ''link'']"
    by (simp add: pictureResult_def)
  moreover have "map (\<lambda>e. getProp (props e) ''type'') (elements pictureResult)
        = [None, None, Some (PStr ''TEXT''), None]"
    by (simp add: pictureResult_def getProp_def)
  ultimately show ?thesis using pass2_pictureAst by blast
qed

subsection \<open>C8: errors\<close>

text \<open>
  The two failures at the boundary are wrapped in one error that names the path and the
  cause. Whatever else the analyzer throws is the \<open>TypeError\<close> of the setter mapping,
  for a handler whose name is a property of \<open>Object.prototype\<close>.
\<close>

lemma analyzeComponent_read_error:
  assumes "readFileSync filePath = Inl msg"
  shows "analyzeComponent readFileSync parse filePath
           = Inl (Error (''Failed to read file \"'' @ filePath @ ''\": '' @ msg))"
  using assms by (simp add: analyzeComponent_def)

lemma analyzeComponent_parse_error:
  assumes "readFileSync filePath = Inr code" and "parse code filePath = Inl msg"
  shows "analyzeComponent readFileSync parse filePath
           = Inl (Error (''Failed to parse \"'' @ filePath @ ''\": '' @ msg))"
  using assms by (simp add: analyzeComponent_def)

lemma visitAll_Inl:
  assumes "visitAll v s ps = Inl e"
  shows "\<exists>s' p. p \<in> set ps \<and> v s' p = Inl e"
  using assms
proof (induction ps arbitrary: s)
  case Nil
  then show ?case by simp
next
  case (Cons p ps)
  show ?case
  proof (cases "v s p")
    case (Inl e')
    with Cons.prems have "e' = e" by simp
    with Inl have "p \<in> set (p # ps) \<and> v s p = Inl e" by simp
    then show ?thesis by blast
  next
    case (Inr s1)
    with Cons.prems have "visitAll v s1 ps = Inl e" by simp
    from Cons.IH [OF this] obtain s' q where "q \<in> set ps" "v s' q = Inl e" by blast
    then have "q \<in> set (p # ps) \<and> v s' q = Inl e" by simp
    then show ?thesis by blast
  qed
qed

lemma visitSetterCall_Inl:
  assumes "visitSetterCall s anc callee = Inl e"
  shows "e = TypeError ''eventToSetterMap[name].push is not a function''
       \<and> (\<exists>handler. handlerName anc = Some handler \<and> handler \<in> set objectPrototypeKeys)"
proof (cases callee)
  case (Identifier x)
  with assms show ?thesis
    by (auto simp: visitSetterCall_def pushSetter_def
          split: option.splits if_splits sum.splits)
qed (use assms in \<open>simp_all add: visitSetterCall_def\<close>)

lemma pass2_Inl:
  assumes "pass2 cn ast = Inl e"
  shows "e = TypeError ''eventToSetterMap[name].push is not a function''
       \<and> (\<exists>p \<in> set (traverse ast). \<exists>handler.
             handlerName (fst p) = Some handler \<and> handler \<in> set objectPrototypeKeys)"
proof -
  from visitAll_Inl [OF assms [unfolded pass2_def]] obtain s p
    where p: "p \<in> set (traverse ast)" and v: "visit cn s p = Inl e" by blast
  from v obtain callee args where "snd p = CallExpression callee args"
    by (cases "snd p") (simp_all add: visit_def)
  with v have "visitCallExpression cn s (fst p) callee args = Inl e"
    by (simp add: visit_def)
  then obtain s' where "visitSetterCall s' (fst p) callee = Inl e"
    by (auto simp: visitCallExpression_def split: if_splits)
  from visitSetterCall_Inl [OF this] p show ?thesis by blast
qed

text \<open>
  Claim C8 (on a file that is read and parsed, no extraction rule raises). On the file
  \<open>counterAst\<close>, read and parsed without error, the analyzer throws a \<open>TypeError\<close>: the
  handler that calls the setter is a function declaration named \<open>toString\<close>, the lookup
  \<open>eventToSetterMap["toString"]\<close> finds the method inherited from \<open>Object.prototype\<close>,
  no array is stored, and \<open>push\<close> is called on that method.
\<close>

theorem C8_handler_named_toString_throws:
  "analyzeComponent (\<lambda>filePath. Inr ''const Counter = ...'') (\<lambda>code filePath. Inr counterAst)
     ''Counter.jsx''
   = Inl (TypeError ''eventToSetterMap[name].push is not a function'')"
  by code_simp

subsection \<open>C10: an unresolved default export\<close>

text \<open>
  Claim C10. When the file is read and parsed, no default export matches a shape of the
  locator, and no function declaration or variable declarator of the file is named
  \<open>Anonymous\<close>, the analyzer returns the name \<open>Anonymous\<close> with every list and the map
  empty and every flag false.
\<close>

theorem C10_unresolved_export_empty_result:
  assumes "readFileSync filePath = Inr code" and "parse code filePath = Inr ast"
    and "\<forall>decl \<in> set (defaultExports ast). unwrapDefaultExport decl = None"
    and "\<forall>p \<in> set (traverse ast). \<not> definesComponent ''Anonymous'' (snd p)"
  shows "analyzeComponent readFileSync parse filePath =
           Inr \<lparr>name = ''Anonymous'', elements = [], states = [], effects = False, props' = [],
                usesFetch = False, usesAxios = False, apis = [], effectDeps = [],
                eventToSetterMap = []\<rparr>"
proof -
  have "pass1 ast = ''Anonymous''" using assms(3) by (rule pass1_unresolved)
  moreover have "pass2 ''Anonymous'' ast = Inr (initial ''Anonymous'')"
    using assms(4) by (rule nothing_in_scope)
  ultimately show ?thesis
    using assms(1,2) by (simp add: analyzeComponent_def initial_def)
qed

text \<open>
  Witness for C10: the file \<open>arrowAst\<close>, whose default export is an arrow function with
  state, an effect with a network call, and markup.
\<close>

theorem C10_unresolved_export_witness:
  "widgetDisk ''Widget.jsx'' = Inr ''export default () => ...''
   \<and> exampleParser ''export default () => ...'' ''Widget.jsx'' = Inr arrowAst
   \<and> list_all (\<lambda>decl. unwrapDefaultExport decl = None) (defaultExports arrowAst)
   \<and> list_all (\<lambda>p. \<not> definesComponent ''Anonymous'' (snd p)) (traverse arrowAst)
   \<and> analyzeComponent widgetDisk exampleParser ''Widget.jsx''
     = Inr \<lparr>name = ''Anonymous'', elements = [], states = [], effects = False, props' = [],
            usesFetch = False, usesAxios = False, apis = [], effectDeps = [],
            eventToSetterMap = []\<rparr>"
proof -
  have h1: "list_all (\<lambda>decl. unwrapDefaultExport decl = None) (defaultExports arrowAst)"
    by code_simp
  have h2: "list_all (\<lambda>p. \<not> definesComponent ''Anonymous'' (snd p)) (traverse arrowAst)"
    by code_simp
  have r: "widgetDisk ''Widget.jsx'' = Inr ''export default () => ...''"
    by (simp add: widgetDisk_def)
  have q: "exampleParser ''export default () => ...'' ''Widget.jsx'' = Inr arrowAst"
    by (simp add: exampleParser_def)
  from C10_unresolved_export_empty_result
         [where readFileSync = widgetDisk and filePath = "''Widget.jsx''"
            and code = "''export default () => ...''" and parse = exampleParser and ast = arrowAst]
       r q h1 [unfolded list_all_iff] h2 [unfolded list_all_iff]
  have "analyzeComponent widgetDisk exampleParser ''Widget.jsx''
     = Inr \<lparr>name = ''Anonymous'', elements = [], states = [], effects = False, props' = [],
            usesFetch = False, usesAxios = False, apis = [], effectDeps = [],
            eventToSetterMap = []\<rparr>"
    by blast
  with r q h1 h2 show ?thesis by blast
qed

end
